theory Spec2Isabelle
  imports Complex_Main "HOL-Library.AList" "HOL-Library.Char_ord" "HOL-Library.List_Lexorder"
    "HOL-Library.Multiset" "HOL-Library.Product_Lexorder"
begin

section \<open>Values of a table cell\<close>

text \<open>
  The numeric columns of the pandas table hold float64 values, \<open>np.nan\<close> or \<open>pd.NA\<close>.
  A finite float is modelled by the real number it stands for (no rounding error, no
  signed zero); the two infinities and both kinds of missing value are kept apart.
  \<open>pd.isnull\<close> is true of \<open>np.nan\<close> and of \<open>pd.NA\<close>.
\<close>

datatype cell = Fin real | PInf | NInf | NaN | NA

fun isnull :: "cell \<Rightarrow> bool" where
  "isnull NaN = True"
| "isnull NA = True"
| "isnull _ = False"

definition notnull :: "cell \<Rightarrow> bool" where
  "notnull c = (\<not> isnull c)"

text \<open>Arithmetic of float64 on the idealised values; \<open>pd.NA\<close> propagates.\<close>

fun cadd :: "cell \<Rightarrow> cell \<Rightarrow> cell" where
  "cadd NA _ = NA"
| "cadd _ NA = NA"
| "cadd NaN _ = NaN"
| "cadd _ NaN = NaN"
| "cadd (Fin x) (Fin y) = Fin (x + y)"
| "cadd PInf NInf = NaN"
| "cadd NInf PInf = NaN"
| "cadd PInf _ = PInf"
| "cadd _ PInf = PInf"
| "cadd NInf _ = NInf"
| "cadd _ NInf = NInf"

fun cneg :: "cell \<Rightarrow> cell" where
  "cneg (Fin x) = Fin (- x)"
| "cneg PInf = NInf"
| "cneg NInf = PInf"
| "cneg c = c"

definition csub :: "cell \<Rightarrow> cell \<Rightarrow> cell" where
  "csub a b = cadd a (cneg b)"

fun cmul :: "cell \<Rightarrow> cell \<Rightarrow> cell" where
  "cmul NA _ = NA"
| "cmul _ NA = NA"
| "cmul NaN _ = NaN"
| "cmul _ NaN = NaN"
| "cmul (Fin x) (Fin y) = Fin (x * y)"
| "cmul (Fin x) PInf = (if x = 0 then NaN else if 0 < x then PInf else NInf)"
| "cmul (Fin x) NInf = (if x = 0 then NaN else if 0 < x then NInf else PInf)"
| "cmul PInf (Fin y) = (if y = 0 then NaN else if 0 < y then PInf else NInf)"
| "cmul NInf (Fin y) = (if y = 0 then NaN else if 0 < y then NInf else PInf)"
| "cmul PInf PInf = PInf"
| "cmul NInf NInf = PInf"
| "cmul PInf NInf = NInf"
| "cmul NInf PInf = NInf"

fun cdiv :: "cell \<Rightarrow> cell \<Rightarrow> cell" where
  "cdiv NA _ = NA"
| "cdiv _ NA = NA"
| "cdiv NaN _ = NaN"
| "cdiv _ NaN = NaN"
| "cdiv (Fin x) (Fin y) =
     (if y = 0 then (if x = 0 then NaN else if 0 < x then PInf else NInf) else Fin (x / y))"
| "cdiv (Fin x) _ = Fin 0"
| "cdiv PInf (Fin y) = (if 0 \<le> y then PInf else NInf)"
| "cdiv NInf (Fin y) = (if 0 \<le> y then NInf else PInf)"
| "cdiv _ _ = NaN"

text \<open>Comparisons of a column with a number: false on a missing value.\<close>

fun cge :: "cell \<Rightarrow> real \<Rightarrow> bool" where
  "cge (Fin x) t = (t \<le> x)"
| "cge PInf t = True"
| "cge _ t = False"

fun cgt :: "cell \<Rightarrow> real \<Rightarrow> bool" where
  "cgt (Fin x) t = (t < x)"
| "cgt PInf t = True"
| "cgt _ t = False"

fun clt :: "cell \<Rightarrow> real \<Rightarrow> bool" where
  "clt (Fin x) t = (x < t)"
| "clt NInf t = True"
| "clt _ t = False"

text \<open>
  \<open>np.round\<close> and \<open>Series.round\<close>: scale by a power of ten, round half to even, scale
  back. Infinities and missing values are left as they are.
\<close>

definition round_half_even :: "real \<Rightarrow> int" where
  "round_half_even x =
     (let f = \<lfloor>x\<rfloor> in
      if x - of_int f < 1 / 2 then f
      else if 1 / 2 < x - of_int f then f + 1
      else if even f then f else f + 1)"

definition round_dec :: "nat \<Rightarrow> real \<Rightarrow> real" where
  "round_dec d x = of_int (round_half_even (x * 10 ^ d)) / 10 ^ d"

fun np_round :: "nat \<Rightarrow> cell \<Rightarrow> cell" where
  "np_round d (Fin x) = Fin (round_dec d x)"
| "np_round d c = c"

text \<open>\<open>np.log\<close>: minus infinity at zero, \<open>nan\<close> on a negative number.\<close>

fun np_log :: "cell \<Rightarrow> cell" where
  "np_log (Fin x) = (if 0 < x then Fin (ln x) else if x = 0 then NInf else NaN)"
| "np_log PInf = PInf"
| "np_log NInf = NaN"
| "np_log c = c"

section \<open>Rows and tables\<close>

text \<open>
  A date is its proleptic Gregorian ordinal (\<open>date.toordinal()\<close>), so that
  \<open>(a - b).days\<close> is a subtraction. A row carries its date, its location and the
  numeric columns by name; a table is the list of its rows, in index order.
\<close>

record row =
  date :: int
  location :: string
  vals :: "string \<rightharpoonup> cell"

type_synonym dataframe = "row list"

datatype error = KeyError | ValueError | IndexError | AttributeError

definition has_col :: "dataframe \<Rightarrow> string \<Rightarrow> bool" where
  "has_col df c = list_all (\<lambda>r. vals r c \<noteq> None) df"

definition getc :: "string \<Rightarrow> row \<Rightarrow> cell" where
  "getc c r = (case vals r c of Some v \<Rightarrow> v | None \<Rightarrow> NaN)"

definition setc :: "string \<Rightarrow> cell \<Rightarrow> row \<Rightarrow> row" where
  "setc c v r = r\<lparr>vals := (vals r)(c \<mapsto> v)\<rparr>"

section \<open>Doubling days\<close>

definition pct_change_to_doubling_days :: "cell \<Rightarrow> nat \<Rightarrow> cell" where
  "pct_change_to_doubling_days pct_change periods =
     (if notnull pct_change \<and> pct_change \<noteq> Fin 0
      then np_round 2 (cdiv (Fin (real periods * ln 2)) (np_log (cadd (Fin 1) pct_change)))
      else NA)"

section \<open>Dates\<close>

text \<open>
  \<open>datetime.strptime(s, "%Y-%m-%d")\<close> followed by \<open>toordinal()\<close>: the day number of a
  calendar date in the proleptic Gregorian calendar (1 January of year 1 is day 1).
\<close>

definition is_leap :: "int \<Rightarrow> bool" where
  "is_leap y = (y mod 4 = 0 \<and> (y mod 100 \<noteq> 0 \<or> y mod 400 = 0))"

definition days_before_year :: "int \<Rightarrow> int" where
  "days_before_year y = (y - 1) * 365 + (y - 1) div 4 - (y - 1) div 100 + (y - 1) div 400"

definition days_in_month :: "int \<Rightarrow> nat \<Rightarrow> int" where
  "days_in_month y m =
     (if m = 2 then (if is_leap y then 29 else 28)
      else if m \<in> {4, 6, 9, 11} then 30 else 31)"

definition days_before_month :: "int \<Rightarrow> nat \<Rightarrow> int" where
  "days_before_month y m = sum_list (map (days_in_month y) [1..<m])"

definition ymd :: "int \<Rightarrow> nat \<Rightarrow> int \<Rightarrow> int" where
  "ymd y m d = days_before_year y + days_before_month y m + d"

definition zero_day :: int where
  "zero_day = ymd 2020 1 21"

section \<open>Days since a threshold\<close>

record threshold_spec =
  value_col :: string
  value_threshold :: real
  positive_only :: bool

definition get_date_of_threshold :: "dataframe \<Rightarrow> string \<Rightarrow> real \<Rightarrow> int option" where
  "get_date_of_threshold df c threshold =
     (if \<not> has_col df c then None
      else case filter (\<lambda>r. cge (getc c r) threshold) df of
             [] \<Rightarrow> None
           | r # _ \<Rightarrow> Some (date r))"

definition date_diff :: "int option \<Rightarrow> int option \<Rightarrow> bool \<Rightarrow> int option" where
  "date_diff a b pos_only =
     (case a of None \<Rightarrow> None
      | Some x \<Rightarrow> (case b of None \<Rightarrow> None
          | Some y \<Rightarrow> (let diff = x - y in if pos_only \<and> diff < 0 then None else Some diff)))"

fun as_Int64 :: "int option \<Rightarrow> cell" where
  "as_Int64 None = NA"
| "as_Int64 (Some d) = Fin (of_int d)"

definition days_since :: "dataframe \<Rightarrow> threshold_spec \<Rightarrow> cell list" where
  "days_since df spec =
     (let ref_date = get_date_of_threshold df (value_col spec) (value_threshold spec)
      in map (\<lambda>r. as_Int64 (date_diff (Some (date r)) ref_date (positive_only spec))) df)"



section \<open>Anomaly corrections\<close>

text \<open>\<open>Series.max()\<close> of a date column: \<open>NaT\<close> (here \<open>None\<close>) when there is no row.\<close>

fun max_date :: "int list \<Rightarrow> int option" where
  "max_date [] = None"
| "max_date (d # ds) = Some (fold max ds d)"

text \<open>\<open>Series.item()\<close>: the only element, or a \<open>ValueError\<close>.\<close>

fun item :: "'a list \<Rightarrow> error + 'a" where
  "item [x] = Inr x"
| "item _ = Inl ValueError"

text \<open>
  One metric's block of \<open>hide_recent_zeros\<close>, entered when the metric has a last positive
  date: \<open>col\<close> is \<open>new_cases\<close> with limit 100, or \<open>new_deaths\<close> with limit 10.
\<close>

definition hide_after :: "string \<Rightarrow> real \<Rightarrow> int \<Rightarrow> int \<Rightarrow> dataframe \<Rightarrow> error + dataframe" where
  "hide_after col least last_reported_date last_positive_date df =
     (if last_positive_date \<noteq> last_reported_date then
        (case item (map (getc col) (filter (\<lambda>r. date r = last_positive_date) df)) of
           Inl e \<Rightarrow> Inl e
         | Inr last_known \<Rightarrow>
             if cge last_known least \<and> last_reported_date - last_positive_date < 7
             then Inr (map (\<lambda>r. if last_positive_date < date r then setc col NaN r else r) df)
             else Inr df)
      else Inr df)"

definition last_positive_date :: "string \<Rightarrow> dataframe \<Rightarrow> int option" where
  "last_positive_date col df = max_date (map date (filter (\<lambda>r. cgt (getc col r) 0) df))"

definition hide_recent_zeros :: "dataframe \<Rightarrow> error + dataframe" where
  "hide_recent_zeros df =
     (if \<not> (has_col df ''new_cases'' \<and> has_col df ''new_deaths'') then Inl AttributeError
      else case max_date (map date df) of
        None \<Rightarrow> Inr df
      | Some last_reported_date \<Rightarrow>
         (case last_positive_date ''new_cases'' df of
            None \<Rightarrow> Inr df
          | Some last_positive_cases_date \<Rightarrow>
             (case hide_after ''new_cases'' 100 last_reported_date last_positive_cases_date df of
                Inl e \<Rightarrow> Inl e
              | Inr df1 \<Rightarrow>
                 (case last_positive_date ''new_deaths'' df1 of
                    None \<Rightarrow> Inr df1
                  | Some last_positive_deaths_date \<Rightarrow>
                      hide_after ''new_deaths'' 10 last_reported_date last_positive_deaths_date df1))))"

definition mk_row :: "int \<Rightarrow> string \<Rightarrow> cell \<Rightarrow> cell \<Rightarrow> cell \<Rightarrow> cell \<Rightarrow> row" where
  "mk_row d l nc nd tc td =
     \<lparr>date = d, location = l,
      vals = [''new_cases'' \<mapsto> nc, ''new_deaths'' \<mapsto> nd,
              ''total_cases'' \<mapsto> tc, ''total_deaths'' \<mapsto> td]\<rparr>"

definition quiet_cases_df :: dataframe where
  "quiet_cases_df = [mk_row 1 ''A'' (Fin 0) (Fin 20) (Fin 0) (Fin 20),
                     mk_row 2 ''A'' (Fin 0) (Fin 0) (Fin 0) (Fin 20)]"

definition one_case_df :: dataframe where
  "one_case_df = [mk_row 1 ''A'' (Fin 1) (Fin 20) (Fin 1) (Fin 20),
                  mk_row 2 ''A'' (Fin 0) (Fin 0) (Fin 1) (Fin 20)]"

section \<open>Aggregates\<close>

text \<open>
  A sum that skips missing values, as \<open>GroupBy.sum\<close> does (\<open>skipna\<close>, \<open>min_count = 0\<close>):
  the sum of no value is 0.
\<close>

definition nansum :: "cell list \<Rightarrow> cell" where
  "nansum xs = foldr cadd (filter notnull xs) (Fin 0)"

text \<open>Python's truth value of an optional list: \<open>None\<close> and the empty list are false.\<close>

fun truthy :: "'a list option \<Rightarrow> bool" where
  "truthy None = False"
| "truthy (Some xs) = (xs \<noteq> [])"

definition isin :: "string \<Rightarrow> string list option \<Rightarrow> bool" where
  "isin l xs = (case xs of None \<Rightarrow> False | Some ys \<Rightarrow> l \<in> set ys)"

definition qualifying :: "dataframe \<Rightarrow> string list option \<Rightarrow> string list option \<Rightarrow> dataframe" where
  "qualifying df include exclude =
     (let df1 = (if truthy include then filter (\<lambda>r. isin (location r) include) df else df)
      in if truthy exclude then filter (\<lambda>r. \<not> isin (location r) exclude) df1 else df1)"

text \<open>
  \<open>groupby("date").sum()\<close>: one row per date that occurs, in date order, each numeric
  column summed over the rows of that date.
\<close>

definition sum_columns :: "dataframe \<Rightarrow> (string \<rightharpoonup> cell)" where
  "sum_columns g =
     (\<lambda>c. case g of [] \<Rightarrow> None
          | r # _ \<Rightarrow> (case vals r c of None \<Rightarrow> None
                      | Some _ \<Rightarrow> Some (nansum (map (getc c) g))))"

definition sum_aggregate ::
  "dataframe \<Rightarrow> string \<Rightarrow> string list option \<Rightarrow> string list option \<Rightarrow> dataframe" where
  "sum_aggregate df name include exclude =
     (let q = qualifying df include exclude
      in map (\<lambda>d. \<lparr>date = d, location = name,
                     vals = sum_columns (filter (\<lambda>r. date r = d) q)\<rparr>)
             (sort (remdups (map date q))))"

definition all_null_df :: dataframe where
  "all_null_df = [mk_row 1 ''A'' NaN (Fin 2) (Fin 5) (Fin 2),
                  mk_row 1 ''B'' NaN (Fin 1) NaN (Fin 1),
                  mk_row 1 ''China'' (Fin 7) (Fin 1) (Fin 7) (Fin 1)]"

section \<open>Operations by location\<close>

text \<open>
  \<open>df.groupby("location")\<close>: the rows of one location, in the order of the table. A
  group-wise transform computes one series per group from the group's rows (\<open>F l\<close> for
  location \<open>l\<close>) and hands each row the value at its position within its group, which is
  what the index alignment of the assignment \<open>df[col] = ...\<close> does.
\<close>

definition group_of :: "string \<Rightarrow> dataframe \<Rightarrow> dataframe" where
  "group_of l df = filter (\<lambda>r. location r = l) df"

definition spread :: "(string \<Rightarrow> cell list) \<Rightarrow> dataframe \<Rightarrow> cell list" where
  "spread F df =
     map (\<lambda>i. F (location (df ! i)) ! length (group_of (location (df ! i)) (take i df)))
         [0..<length df]"

definition by_location :: "(dataframe \<Rightarrow> cell list) \<Rightarrow> dataframe \<Rightarrow> cell list" where
  "by_location f df = spread (\<lambda>l. f (group_of l df)) df"

definition assign :: "string \<Rightarrow> cell list \<Rightarrow> dataframe \<Rightarrow> dataframe" where
  "assign c xs df = map (\<lambda>(r, v). setc c v r) (zip df xs)"

section \<open>Weekly and biweekly growth\<close>

text \<open>
  \<open>rolling(window, min_periods).sum()\<close> on one series: the window ends at the current
  position; with fewer than \<open>min_periods\<close> values present the result is missing.
\<close>

definition window :: "nat \<Rightarrow> nat \<Rightarrow> 'a list \<Rightarrow> 'a list" where
  "window w i xs = drop (Suc i - w) (take (Suc i) xs)"

definition rolling_sum :: "nat \<Rightarrow> nat \<Rightarrow> cell list \<Rightarrow> cell list" where
  "rolling_sum w min_periods xs =
     map (\<lambda>i. if min_periods \<le> length (filter notnull (window w i xs))
              then nansum (window w i xs) else NaN)
         [0..<length xs]"

text \<open>\<open>pct_change(periods, fill_method=None)\<close> on one series.\<close>

definition pct_change :: "nat \<Rightarrow> cell list \<Rightarrow> cell list" where
  "pct_change periods xs =
     map (\<lambda>i. if i < periods then NaN
              else csub (cdiv (xs ! i) (xs ! (i - periods))) (Fin 1))
         [0..<length xs]"

fun replace_inf :: "cell \<Rightarrow> cell" where
  "replace_inf PInf = NA"
| "replace_inf NInf = NA"
| "replace_inf c = c"

text \<open>
  \<open>_inject_growth\<close> is three statements, modelled one by one: the rolling sums of the two
  daily columns, the growth of these sums, and the nulling of the sums where the daily
  value is missing.
\<close>

definition rolling_sums :: "string \<Rightarrow> nat \<Rightarrow> dataframe \<Rightarrow> dataframe" where
  "rolling_sums prefix periods df =
     assign (prefix @ ''_deaths'')
       (by_location (\<lambda>g. rolling_sum periods (periods - 1) (map (getc ''new_deaths'') g)) df)
       (assign (prefix @ ''_cases'')
          (by_location (\<lambda>g. rolling_sum periods (periods - 1) (map (getc ''new_cases'') g)) df)
          df)"

definition scale_growth :: "cell \<Rightarrow> cell" where
  "scale_growth v = cmul (replace_inf (np_round 3 v)) (Fin 100)"

definition pct_growths :: "string \<Rightarrow> nat \<Rightarrow> dataframe \<Rightarrow> dataframe" where
  "pct_growths prefix periods df =
     assign (prefix @ ''_pct_growth_deaths'')
       (map scale_growth
          (by_location (\<lambda>g. pct_change periods (map (getc (prefix @ ''_deaths'')) g)) df))
       (assign (prefix @ ''_pct_growth_cases'')
          (map scale_growth
             (by_location (\<lambda>g. pct_change periods (map (getc (prefix @ ''_cases'')) g)) df))
          df)"

definition null_where_daily_null :: "string \<Rightarrow> dataframe \<Rightarrow> dataframe" where
  "null_where_daily_null prefix df =
     map (\<lambda>r. if isnull (getc ''new_deaths'' r) then setc (prefix @ ''_deaths'') NaN r else r)
       (map (\<lambda>r. if isnull (getc ''new_cases'' r) then setc (prefix @ ''_cases'') NaN r else r)
          df)"

definition inject_growth :: "dataframe \<Rightarrow> string \<Rightarrow> nat \<Rightarrow> error + dataframe" where
  "inject_growth df prefix periods =
     (if \<not> (has_col df ''new_cases'' \<and> has_col df ''new_deaths'') then Inl KeyError
      else Inr (null_where_daily_null prefix
                  (pct_growths prefix periods (rolling_sums prefix periods df))))"

definition inject_weekly_growth :: "dataframe \<Rightarrow> error + dataframe" where
  "inject_weekly_growth df = inject_growth df ''weekly'' 7"

definition inject_biweekly_growth :: "dataframe \<Rightarrow> error + dataframe" where
  "inject_biweekly_growth df = inject_growth df ''biweekly'' 14"

definition daily :: "int \<Rightarrow> string \<Rightarrow> cell \<Rightarrow> row" where
  "daily d l nc = mk_row d l nc (Fin 0) (Fin 0) (Fin 0)"





definition null_day_df :: dataframe where
  "null_day_df =
     [daily 1 ''A'' (Fin 1), daily 2 ''A'' (Fin 1), daily 3 ''A'' (Fin 1),
      daily 4 ''A'' (Fin 1), daily 5 ''A'' (Fin 1), daily 6 ''A'' (Fin 1),
      daily 7 ''A'' NaN]"

section \<open>Reference data and aggregate specs\<close>

text \<open>
  The tables of \<open>cowidev.jhu.load\<close> and \<open>cowidev.megafile.steps.test\<close> are read-only
  inputs of the pipeline: the population of a location with its reference year, the names
  of the EU countries, the locations of each continent and of each World Bank income
  group (dicts, in insertion order), and the locations that have testing data.
\<close>

record refdata =
  population :: "string \<rightharpoonup> real \<times> int"
  eu_country_names :: "string list"
  locations_by_continent :: "(string \<times> string list) list"
  locations_by_wb_income_group :: "(string \<times> string list) list"
  testing_locations :: "string list"

text \<open>
  A dict display: a later entry with a key already present replaces the value and keeps
  the position of the first.
\<close>

definition py_dict :: "('k \<times> 'v) list \<Rightarrow> ('k \<times> 'v) list" where
  "py_dict items = foldl (\<lambda>d (k, v). AList.update k v d) [] items"

type_synonym agg_params = "string list option \<times> string list option"

definition aggregates_spec :: "refdata \<Rightarrow> error + (string \<times> agg_params) list" where
  "aggregates_spec ref =
     (case map_of (locations_by_continent ref) ''Asia'' of
        None \<Rightarrow> Inl KeyError
      | Some asia \<Rightarrow> Inr (py_dict
         ([(''World'', (None, None)),
           (''World excl. China'', (None, Some [''China''])),
           (''World excl. China and South Korea'', (None, Some [''China'', ''South Korea''])),
           (''World excl. China, South Korea, Japan and Singapore'',
              (None, Some [''China'', ''South Korea'', ''Japan'', ''Singapore''])),
           (''European Union'', (Some (eu_country_names ref), None))]
          @ map (\<lambda>(continent, locations). (continent, (Some locations, None)))
              (locations_by_continent ref)
          @ [(''Asia excl. China'', (Some (remdups (filter (\<lambda>l. l \<noteq> ''China'') asia)), None))]
          @ map (\<lambda>(income_group, locations). (income_group, (Some locations, None)))
              (locations_by_wb_income_group ref))))"

definition inject_owid_aggregates :: "refdata \<Rightarrow> dataframe \<Rightarrow> error + dataframe" where
  "inject_owid_aggregates ref df =
     (case aggregates_spec ref of
        Inl e \<Rightarrow> Inl e
      | Inr specs \<Rightarrow>
          Inr (df @ concat (map (\<lambda>(name, include, exclude). sum_aggregate df name include exclude)
                              specs)))"

section \<open>Export\<close>

definition KEYS :: "string list" where
  "KEYS = [''date'', ''location'']"

definition BASE_MEASURES :: "string list" where
  "BASE_MEASURES =
     [''new_cases'', ''new_deaths'', ''total_cases'', ''total_deaths'',
      ''weekly_cases'', ''weekly_deaths'', ''biweekly_cases'', ''biweekly_deaths'']"

definition PER_MILLION_MEASURES :: "string list" where
  "PER_MILLION_MEASURES = map (\<lambda>m. m @ ''_per_million'') BASE_MEASURES"

definition FULL_DATA_COLS :: "string list" where
  "FULL_DATA_COLS = KEYS @ BASE_MEASURES"

text \<open>
  The dict \<open>GRAPHER_COL_NAMES\<close> in the order of its display (its keys are distinct), with
  the character \<open>\<ge>\<close> of the presentation names in UTF-8.
\<close>

definition ge_sign :: string where
  "ge_sign = [CHR 0xE2, CHR 0x89, CHR 0xA5]"

definition GRAPHER_COL_NAMES :: "(string \<times> string) list" where
  "GRAPHER_COL_NAMES =
     [(''location'', ''Country''),
      (''date'', ''Year''),
      (''new_cases'', ''Daily new confirmed cases of COVID-19''),
      (''new_deaths'', ''Daily new confirmed deaths due to COVID-19''),
      (''total_cases'', ''Total confirmed cases of COVID-19''),
      (''total_deaths'', ''Total confirmed deaths due to COVID-19''),
      (''new_cases_per_million'', ''Daily new confirmed cases of COVID-19 per million people''),
      (''new_deaths_per_million'', ''Daily new confirmed deaths due to COVID-19 per million people''),
      (''total_cases_per_million'', ''Total confirmed cases of COVID-19 per million people''),
      (''total_deaths_per_million'', ''Total confirmed deaths due to COVID-19 per million people''),
      (''days_since_100_total_cases'', ''Days since the total confirmed cases of COVID-19 reached 100''),
      (''days_since_5_total_deaths'', ''Days since the total confirmed deaths of COVID-19 reached 5''),
      (''days_since_1_total_cases_per_million'',
         ''Days since the total confirmed cases of COVID-19 per million people reached 1''),
      (''days_since_0_1_total_deaths_per_million'',
         ''Days since the total confirmed deaths of COVID-19 per million people reached 0.1''),
      (''new_cases_7_day_avg_right'',
         ''Daily new confirmed cases due to COVID-19 (rolling 7-day average, right-aligned)''),
      (''new_deaths_7_day_avg_right'',
         ''Daily new confirmed deaths due to COVID-19 (rolling 7-day average, right-aligned)''),
      (''new_cases_per_million_7_day_avg_right'',
         ''Daily new confirmed cases of COVID-19 per million people (rolling 7-day average, right-aligned)''),
      (''new_deaths_per_million_7_day_avg_right'',
         ''Daily new confirmed deaths due to COVID-19 per million people (rolling 7-day average, right-aligned)''),
      (''cfr'', ''Case fatality rate of COVID-19 (%)''),
      (''cfr_100_cases'',
         ''Case fatality rate of COVID-19 (%) (Only observations with '' @ ge_sign @ ''100 cases)''),
      (''days_since_100_total_cases_and_5m_pop'',
         ''Days since the total confirmed cases of COVID-19 reached 100 (with population ''
           @ ge_sign @ '' 5M)''),
      (''5m_pop_and_21_days_since_100_cases_and_testing'',
         ''Has population '' @ ge_sign @ '' 5M AND had '' @ ge_sign @ ''100 cases '' @ ge_sign
           @ ''21 days ago AND has testing data''),
      (''weekly_cases'', ''Weekly cases''),
      (''weekly_deaths'', ''Weekly deaths''),
      (''weekly_pct_growth_cases'', ''Weekly case growth (%)''),
      (''weekly_pct_growth_deaths'', ''Weekly death growth (%)''),
      (''biweekly_cases'', ''Biweekly cases''),
      (''biweekly_deaths'', ''Biweekly deaths''),
      (''biweekly_pct_growth_cases'', ''Biweekly case growth (%)''),
      (''biweekly_pct_growth_deaths'', ''Biweekly death growth (%)''),
      (''weekly_cases_per_million'', ''Weekly cases per million people''),
      (''weekly_deaths_per_million'', ''Weekly deaths per million people''),
      (''biweekly_cases_per_million'', ''Biweekly cases per million people''),
      (''biweekly_deaths_per_million'', ''Biweekly deaths per million people'')]"

definition existsin :: "'a list \<Rightarrow> 'a list \<Rightarrow> 'a list" where
  "existsin l1 l2 = filter (\<lambda>x. x \<in> set l2) l1"

text \<open>
  A written CSV file: the directory and file name that \<open>os.path.join\<close> puts together,
  the header line and the data lines. A field is a text, a number of days or a numeric
  cell. The \<open>kind\<close> records which statement of \<open>standard_export\<close> wrote the file.
\<close>

datatype field = Text string | Days int | Num cell

datatype kind = Grapher | Full_data | Pivot

record csv_file =
  kind :: kind
  directory :: string
  file_name :: string
  header :: "string list"
  lines :: "field list list"

text \<open>The column \<open>c\<close> of a row as a CSV field; \<open>date\<close> and \<open>location\<close> are columns too.\<close>

definition field_of :: "row \<Rightarrow> string \<Rightarrow> field" where
  "field_of r c =
     (if c = ''date'' then Days (date r)
      else if c = ''location'' then Text (location r)
      else Num (getc c r))"

definition has_cols :: "dataframe \<Rightarrow> string list \<Rightarrow> bool" where
  "has_cols df cs = list_all (\<lambda>c. c \<in> set KEYS \<or> has_col df c) cs"

definition grapher_export :: "dataframe \<Rightarrow> string \<Rightarrow> string \<Rightarrow> error + csv_file" where
  "grapher_export df output_path grapher_name =
     (let df_grapher = map (\<lambda>r. r\<lparr>date := date r - zero_day\<rparr>) df
      in if \<not> has_cols df_grapher (map fst GRAPHER_COL_NAMES) then Inl KeyError
         else Inr \<lparr>kind = Grapher, directory = output_path,
                   file_name = grapher_name @ ''.csv'',
                   header = map snd GRAPHER_COL_NAMES,
                   lines = map (\<lambda>r. map (field_of r) (map fst GRAPHER_COL_NAMES)) df_grapher\<rparr>)"

definition aggregates_whitelist :: "string list" where
  "aggregates_whitelist =
     [''World'', ''North America'', ''South America'', ''Europe'', ''Africa'', ''Asia'',
      ''Oceania'', ''European Union'', ''High income'', ''Upper middle income'',
      ''Lower middle income'', ''Low income'']"

definition excluded_aggregates :: "(string \<times> agg_params) list \<Rightarrow> string list" where
  "excluded_aggregates specs = filter (\<lambda>k. k \<notin> set aggregates_whitelist) (map fst specs)"

text \<open>
  \<open>full_data_cols\<close> keeps the columns of \<open>FULL_DATA_COLS\<close> that the table has; \<open>dropna\<close>
  raises a \<open>KeyError\<close> when a base measure is not among them.
\<close>

definition full_data_export :: "dataframe \<Rightarrow> string \<Rightarrow> error + csv_file" where
  "full_data_export df_table output_path =
     (let full_data_cols = existsin FULL_DATA_COLS
                             (KEYS @ filter (has_col df_table) BASE_MEASURES)
      in if \<not> list_all (\<lambda>c. c \<in> set full_data_cols) BASE_MEASURES then Inl KeyError
         else Inr \<lparr>kind = Full_data, directory = output_path,
                   file_name = ''full_data.csv'',
                   header = full_data_cols,
                   lines = map (\<lambda>r. map (field_of r) full_data_cols)
                             (filter (\<lambda>r. \<not> list_all (\<lambda>c. isnull (getc c r)) BASE_MEASURES)
                                df_table)\<rparr>)"

text \<open>
  \<open>DataFrame.pivot(index="date", columns="location", values=col)\<close>: the columns are the
  locations and the index the dates, both sorted; a cell without a row is missing; two
  rows for one date and location are a \<open>ValueError\<close>.
\<close>

record pivot_table =
  pcolumns :: "string list"
  pindex :: "int list"
  pcell :: "int \<Rightarrow> string \<Rightarrow> cell"

definition pivot :: "dataframe \<Rightarrow> string \<Rightarrow> error + pivot_table" where
  "pivot df c =
     (if \<not> has_col df c then Inl KeyError
      else if \<not> distinct (map (\<lambda>r. (date r, location r)) df) then Inl ValueError
      else Inr \<lparr>pcolumns = sort (remdups (map location df)),
                pindex = sort (remdups (map date df)),
                pcell = (\<lambda>d l. case filter (\<lambda>r. date r = d \<and> location r = l) df of
                                  [] \<Rightarrow> NaN
                                | r # _ \<Rightarrow> getc c r)\<rparr>)"

text \<open>
  \<open>cols.insert(0, cols.pop(cols.index("World")))\<close>: \<open>list.index\<close> raises a
  \<open>ValueError\<close> when the value is absent.
\<close>

definition world_first :: "string list \<Rightarrow> error + string list" where
  "world_first cols =
     (if ''World'' \<in> set cols then Inr (''World'' # remove1 ''World'' cols)
      else Inl ValueError)"

definition pivot_export :: "dataframe \<Rightarrow> string \<Rightarrow> string \<Rightarrow> error + csv_file" where
  "pivot_export df_table output_path col_name =
     (case pivot df_table col_name of
        Inl e \<Rightarrow> Inl e
      | Inr df_pivot \<Rightarrow>
         (case world_first (pcolumns df_pivot) of
            Inl e \<Rightarrow> Inl e
          | Inr cols \<Rightarrow>
              Inr \<lparr>kind = Pivot, directory = output_path,
                   file_name = col_name @ ''.csv'',
                   header = ''date'' # cols,
                   lines = map (\<lambda>d. Days d # map (\<lambda>l. Num (pcell df_pivot d l)) cols)
                             (pindex df_pivot)\<rparr>))"

text \<open>
  The loop over the measures: the files written so far are kept when a later measure
  raises.
\<close>

fun pivot_loop ::
  "dataframe \<Rightarrow> string \<Rightarrow> string list \<Rightarrow> csv_file list \<Rightarrow> csv_file list \<times> (error + bool)" where
  "pivot_loop df_table output_path [] written = (written, Inr True)"
| "pivot_loop df_table output_path (col_name # rest) written =
     (case pivot_export df_table output_path col_name of
        Inl e \<Rightarrow> (written, Inl e)
      | Inr f \<Rightarrow> pivot_loop df_table output_path rest (written @ [f]))"

definition df_table_of :: "(string \<times> agg_params) list \<Rightarrow> dataframe \<Rightarrow> dataframe" where
  "df_table_of specs df = filter (\<lambda>r. location r \<notin> set (excluded_aggregates specs)) df"

definition standard_export ::
  "refdata \<Rightarrow> dataframe \<Rightarrow> string \<Rightarrow> string \<Rightarrow> csv_file list \<times> (error + bool)" where
  "standard_export ref df output_path grapher_name =
     (case aggregates_spec ref of
        Inl e \<Rightarrow> ([], Inl e)
      | Inr specs \<Rightarrow>
         (case grapher_export df output_path grapher_name of
            Inl e \<Rightarrow> ([], Inl e)
          | Inr g \<Rightarrow>
             (let df_table = df_table_of specs df
              in case full_data_export df_table output_path of
                   Inl e \<Rightarrow> ([g], Inl e)
                 | Inr f \<Rightarrow>
                     pivot_loop df_table output_path (BASE_MEASURES @ PER_MILLION_MEASURES)
                       [g, f])))"

definition tiny_ref :: refdata where
  "tiny_ref =
     \<lparr>population = [''A'' \<mapsto> (10000000, 2020), ''B'' \<mapsto> (2000000, 2020),
                     ''World'' \<mapsto> (12000000, 2020)],
      eu_country_names = [''B''],
      locations_by_continent = [(''Asia'', [''A'', ''China'']), (''Europe'', [''B''])],
      locations_by_wb_income_group = [(''High income'', [''A'', ''B''])],
      testing_locations = [''A'']\<rparr>"

definition full_row :: "int \<Rightarrow> string \<Rightarrow> row" where
  "full_row d l =
     \<lparr>date = d, location = l,
      vals = map_of (map (\<lambda>c. (c, Fin 1))
                       (filter (\<lambda>c. c \<notin> set KEYS) (map fst GRAPHER_COL_NAMES)))\<rparr>"

definition export_df :: dataframe where
  "export_df = [full_row 737500 ''B'', full_row 737500 ''World'', full_row 737500 ''A'']"

definition no_world_df :: dataframe where
  "no_world_df = [full_row 737500 ''B'', full_row 737500 ''A'']"


section \<open>The stages of the pipeline on a table\<close>

text \<open>\<open>df[["date", "location", "new_cases", ...]]\<close>: a new table with these columns only.\<close>

definition RAW_MEASURES :: "string list" where
  "RAW_MEASURES = [''new_cases'', ''new_deaths'', ''total_cases'', ''total_deaths'']"

definition select_raw :: "dataframe \<Rightarrow> error + dataframe" where
  "select_raw df =
     (if \<not> list_all (has_col df) RAW_MEASURES then Inl KeyError
      else Inr (map (\<lambda>r. r\<lparr>vals := vals r |` set RAW_MEASURES\<rparr>) df))"

subsection \<open>Discarding rows\<close>

definition LARGE_DATA_CORRECTIONS :: "(string \<times> int \<times> string) list" where
  "LARGE_DATA_CORRECTIONS =
     [(''Austria'', ymd 2022 4 21, ''deaths''),
      (''Austria'', ymd 2022 4 22, ''deaths''),
      (''Brazil'', ymd 2021 9 18, ''cases''),
      (''Chile'', ymd 2020 7 17, ''deaths''),
      (''Chile'', ymd 2022 3 21, ''deaths''),
      (''China'', ymd 2020 4 17, ''deaths''),
      (''Denmark'', ymd 2021 12 21, ''deaths''),
      (''Ecuador'', ymd 2020 9 7, ''deaths''),
      (''Ecuador'', ymd 2021 7 20, ''deaths''),
      (''Finland'', ymd 2022 3 7, ''deaths''),
      (''Iceland'', ymd 2022 5 17, ''deaths''),
      (''India'', ymd 2021 6 10, ''deaths''),
      (''Mexico'', ymd 2020 10 5, ''deaths''),
      (''Mexico'', ymd 2021 6 1, ''deaths''),
      (''Moldova'', ymd 2021 12 31, ''deaths''),
      (''Norway'', ymd 2022 3 17, ''deaths''),
      (''Oman'', ymd 2022 6 16, ''deaths''),
      (''South Africa'', ymd 2021 11 23, ''cases''),
      (''South Africa'', ymd 2022 1 6, ''deaths''),
      (''Spain'', ymd 2020 6 19, ''deaths''),
      (''Turkey'', ymd 2020 12 10, ''cases''),
      (''United Kingdom'', ymd 2022 1 31, ''cases''),
      (''United Kingdom'', ymd 2022 2 1, ''deaths''),
      (''United Kingdom'', ymd 2022 4 6, ''deaths'')]"

text \<open>\<open>df.loc[df.new_cases < 0, "new_cases"] = np.nan\<close>, for the column \<open>c\<close>.\<close>

definition null_negative :: "string \<Rightarrow> dataframe \<Rightarrow> error + dataframe" where
  "null_negative c df =
     (if \<not> has_col df c then Inl AttributeError
      else Inr (map (\<lambda>r. if clt (getc c r) 0 then setc c NaN r else r) df))"

text \<open>
  One entry of the correction loop. The date of a row, printed as a string, equals the
  string of the entry exactly when the two dates are equal.
\<close>

definition apply_correction :: "string \<times> int \<times> string \<Rightarrow> dataframe \<Rightarrow> dataframe" where
  "apply_correction ldc df =
     (case ldc of (loc, d, metric) \<Rightarrow>
        map (\<lambda>r. if location r = loc \<and> date r = d then setc (''new_'' @ metric) NaN r else r) df)"

definition apply_corrections :: "dataframe \<Rightarrow> dataframe" where
  "apply_corrections df = foldl (\<lambda>d ldc. apply_correction ldc d) df LARGE_DATA_CORRECTIONS"

text \<open>
  \<open>sort_values\<close> is modelled by a stable sort. \<open>groupby("location").apply(f)\<close> calls \<open>f\<close>
  on the groups in the order of their keys and puts the results together; the first group
  that raises ends it.
\<close>

definition sort_by_location_date :: "dataframe \<Rightarrow> dataframe" where
  "sort_by_location_date df = sort_key (\<lambda>r. (location r, date r)) df"

fun collect :: "(error + 'a) list \<Rightarrow> error + 'a list" where
  "collect [] = Inr []"
| "collect (Inl e # _) = Inl e"
| "collect (Inr x # rest) = (case collect rest of Inl e \<Rightarrow> Inl e | Inr xs \<Rightarrow> Inr (x # xs))"

definition groupby_apply :: "(dataframe \<Rightarrow> error + dataframe) \<Rightarrow> dataframe \<Rightarrow> error + dataframe" where
  "groupby_apply f df =
     (case collect (map (\<lambda>l. f (group_of l df)) (sort (remdups (map location df)))) of
        Inl e \<Rightarrow> Inl e
      | Inr groups \<Rightarrow> Inr (concat groups))"

definition hide_all_recent_zeros :: "dataframe \<Rightarrow> error + dataframe" where
  "hide_all_recent_zeros df = groupby_apply hide_recent_zeros (sort_by_location_date df)"

subsection \<open>Doubling days\<close>

definition doubling_days_spec :: "(string \<times> string \<times> nat) list" where
  "doubling_days_spec =
     [(''doubling_days_total_cases_3_day_period'', ''total_cases'', 3),
      (''doubling_days_total_cases_7_day_period'', ''total_cases'', 7),
      (''doubling_days_total_deaths_3_day_period'', ''total_deaths'', 3),
      (''doubling_days_total_deaths_7_day_period'', ''total_deaths'', 7)]"

text \<open>
  One turn of the loop of \<open>inject_doubling_days\<close>: the zeros of the value column are
  replaced by \<open>nan\<close> in the table, then the new column is computed from it.
\<close>

definition null_zeros :: "string \<Rightarrow> dataframe \<Rightarrow> dataframe" where
  "null_zeros vcol df =
     map (\<lambda>r. if getc vcol r = Fin 0 then setc vcol NaN r else r) df"

definition doubling_days_step :: "string \<times> string \<times> nat \<Rightarrow> dataframe \<Rightarrow> error + dataframe" where
  "doubling_days_step spec df =
     (case spec of (col, vcol, periods) \<Rightarrow>
        if \<not> has_col df vcol then Inl KeyError
        else let df1 = null_zeros vcol df
             in Inr (assign col
                       (map (\<lambda>pct. pct_change_to_doubling_days pct periods)
                          (by_location (\<lambda>g. pct_change periods (map (getc vcol) g)) df1))
                       df1))"

subsection \<open>Population and per-million columns\<close>

text \<open>
  \<open>df.merge(load_population(), how="left", on="location")\<close>: a new table with the two
  population columns, missing for a location that the reference does not know.
\<close>

definition inject_population :: "refdata \<Rightarrow> dataframe \<Rightarrow> dataframe" where
  "inject_population ref df =
     map (\<lambda>r. case population ref (location r) of
                None \<Rightarrow> setc ''population_year'' NaN (setc ''population'' NaN r)
              | Some (p, y) \<Rightarrow> setc ''population_year'' (Fin (of_int y)) (setc ''population'' (Fin p) r))
         df"

definition drop_population :: "dataframe \<Rightarrow> error + dataframe" where
  "drop_population df =
     (if \<not> (has_col df ''population_year'' \<and> has_col df ''population'') then Inl KeyError
      else Inr (map (\<lambda>r. r\<lparr>vals := (vals r)(''population_year'' := None, ''population'' := None)\<rparr>) df))"

definition per_million_step :: "string \<Rightarrow> dataframe \<Rightarrow> error + dataframe" where
  "per_million_step m df =
     (if \<not> (has_col df m \<and> has_col df ''population'') then Inl KeyError
      else Inr (map (\<lambda>r. setc (m @ ''_per_million'')
                           (np_round 3 (cdiv (getc m r)
                                          (cdiv (getc ''population'' r) (Fin 1000000)))) r)
                  df))"

fun steps :: "('a \<Rightarrow> dataframe \<Rightarrow> error + dataframe) \<Rightarrow> 'a list \<Rightarrow> dataframe \<Rightarrow> error + dataframe" where
  "steps f [] df = Inr df"
| "steps f (x # xs) df = (case f x df of Inl e \<Rightarrow> Inl e | Inr df' \<Rightarrow> steps f xs df')"

definition inject_per_million :: "refdata \<Rightarrow> string list \<Rightarrow> dataframe \<Rightarrow> error + dataframe" where
  "inject_per_million ref ms df =
     (case steps per_million_step ms (inject_population ref df) of
        Inl e \<Rightarrow> Inl e
      | Inr df' \<Rightarrow> drop_population df')"

subsection \<open>Rolling averages\<close>

definition rolling_avg_spec :: "(string \<times> string \<times> nat \<times> nat) list" where
  "rolling_avg_spec =
     [(''new_cases_7_day_avg_right'', ''new_cases'', 7, 6),
      (''new_deaths_7_day_avg_right'', ''new_deaths'', 7, 6),
      (''new_cases_per_million_7_day_avg_right'', ''new_cases_per_million'', 7, 6),
      (''new_deaths_per_million_7_day_avg_right'', ''new_deaths_per_million'', 7, 6)]"

fun as_float :: "cell \<Rightarrow> cell" where
  "as_float NA = NaN"
| "as_float c = c"

definition rolling_mean :: "nat \<Rightarrow> nat \<Rightarrow> cell list \<Rightarrow> cell list" where
  "rolling_mean w min_periods xs =
     map (\<lambda>i. let obs = filter notnull (window w i xs)
              in if min_periods \<le> length obs
                 then cdiv (nansum obs) (Fin (real (length obs))) else NaN)
         [0..<length xs]"

definition rolling_avg_step :: "string \<times> string \<times> nat \<times> nat \<Rightarrow> dataframe \<Rightarrow> error + dataframe" where
  "rolling_avg_step spec df =
     (case spec of (col, src, w, min_periods) \<Rightarrow>
        if \<not> has_col df src then Inl KeyError
        else let df1 = map (\<lambda>r. setc col (as_float (getc src r)) r) df
             in Inr (assign col
                       (map (np_round 3)
                          (by_location (\<lambda>g. rolling_mean w min_periods (map (getc col) g)) df1))
                       df1))"

definition inject_rolling_avg :: "dataframe \<Rightarrow> error + dataframe" where
  "inject_rolling_avg df = steps rolling_avg_step rolling_avg_spec (sort_key date df)"

subsection \<open>Case fatality ratio\<close>

definition apply_row_cfr_100 :: "row \<Rightarrow> cell" where
  "apply_row_cfr_100 r =
     (if notnull (getc ''total_cases'' r) \<and> cge (getc ''total_cases'' r) 100
      then getc ''cfr'' r else NA)"

definition inject_cfr :: "dataframe \<Rightarrow> error + dataframe" where
  "inject_cfr df =
     (if \<not> (has_col df ''total_deaths'' \<and> has_col df ''total_cases'') then Inl KeyError
      else Inr (map (\<lambda>r. setc ''cfr_100_cases'' (apply_row_cfr_100 r) r)
                  (map (\<lambda>r. setc ''cfr''
                              (np_round 3 (cmul (cdiv (getc ''total_deaths'' r)
                                                   (getc ''total_cases'' r)) (Fin 100))) r)
                     df)))"

subsection \<open>Days since\<close>

definition days_since_spec :: "(string \<times> threshold_spec) list" where
  "days_since_spec =
     [(''days_since_100_total_cases'',
         \<lparr>value_col = ''total_cases'', value_threshold = 100, positive_only = False\<rparr>),
      (''days_since_5_total_deaths'',
         \<lparr>value_col = ''total_deaths'', value_threshold = 5, positive_only = False\<rparr>),
      (''days_since_1_total_cases_per_million'',
         \<lparr>value_col = ''total_cases_per_million'', value_threshold = 1, positive_only = False\<rparr>),
      (''days_since_0_1_total_deaths_per_million'',
         \<lparr>value_col = ''total_deaths_per_million'', value_threshold = 1 / 10,
          positive_only = False\<rparr>)]"

definition days_since_step :: "string \<times> threshold_spec \<Rightarrow> dataframe \<Rightarrow> error + dataframe" where
  "days_since_step cs df =
     (case cs of (col, spec) \<Rightarrow>
        if \<not> has_col df (value_col spec) then Inl KeyError
        else Inr (assign col (by_location (\<lambda>df_group. days_since df_group spec) df) df))"

definition inject_days_since :: "dataframe \<Rightarrow> error + dataframe" where
  "inject_days_since df = steps days_since_step days_since_spec df"

subsection \<open>Exemplars\<close>

definition mapper_days_since :: "row \<Rightarrow> cell" where
  "mapper_days_since r =
     (if notnull (getc ''population'' r) \<and> cge (getc ''population'' r) 5000000
      then getc ''days_since_100_total_cases'' r else NA)"

definition mapper_bool :: "string list \<Rightarrow> row \<Rightarrow> cell" where
  "mapper_bool countries_with_testing_data r =
     (if notnull (getc ''days_since_100_total_cases'' r) \<and> notnull (getc ''population'' r)
         \<and> cge (getc ''days_since_100_total_cases'' r) 21
         \<and> cge (getc ''population'' r) 5000000
         \<and> location r \<in> set countries_with_testing_data
      then Fin 1 else Fin 0)"

definition inject_exemplars :: "refdata \<Rightarrow> dataframe \<Rightarrow> error + dataframe" where
  "inject_exemplars ref df =
     (if \<not> has_col df ''days_since_100_total_cases'' then Inl KeyError
      else drop_population
             (map (\<lambda>r. setc ''5m_pop_and_21_days_since_100_cases_and_testing''
                         (mapper_bool (testing_locations ref) r) r)
                (map (\<lambda>r. setc ''days_since_100_total_cases_and_5m_pop'' (mapper_days_since r) r)
                   (inject_population ref df))))"

section \<open>Tables as objects\<close>

text \<open>
  Python passes a table by reference, and a stage either writes into the table it was
  given or builds a new one. The store holds the tables that exist; an address is a
  position in it. A stage takes the address of its argument and returns the address of
  its result, or raises, and the store keeps whatever was written before the exception.
\<close>

type_synonym store = "dataframe list"

type_synonym prog = "store \<Rightarrow> (error + nat) \<times> store"

definition in_place :: "(dataframe \<Rightarrow> error + dataframe) \<Rightarrow> nat \<Rightarrow> prog" where
  "in_place f a s =
     (case f (s ! a) of Inl e \<Rightarrow> (Inl e, s) | Inr df \<Rightarrow> (Inr a, s[a := df]))"

definition fresh :: "(dataframe \<Rightarrow> error + dataframe) \<Rightarrow> nat \<Rightarrow> prog" where
  "fresh f a s =
     (case f (s ! a) of Inl e \<Rightarrow> (Inl e, s) | Inr df \<Rightarrow> (Inr (length s), s @ [df]))"

text \<open>\<open>x.pipe(f)\<close>: \<open>f\<close> runs on the result of \<open>x\<close> unless \<open>x\<close> raised.\<close>

definition pipe :: "prog \<Rightarrow> (nat \<Rightarrow> prog) \<Rightarrow> prog" where
  "pipe m f s = (case m s of (Inl e, s') \<Rightarrow> (Inl e, s') | (Inr a, s') \<Rightarrow> f a s')"

text \<open>A \<open>for\<close> loop whose body works on the same table variable.\<close>

fun each :: "('x \<Rightarrow> nat \<Rightarrow> prog) \<Rightarrow> 'x list \<Rightarrow> nat \<Rightarrow> prog" where
  "each body [] a = (\<lambda>s. (Inr a, s))"
| "each body (x # xs) a = pipe (body x a) (each body xs)"

text \<open>The same on values: the composition of two stages that may raise.\<close>

definition and_then :: "error + 'a \<Rightarrow> ('a \<Rightarrow> error + 'b) \<Rightarrow> error + 'b" where
  "and_then x f = (case x of Inl e \<Rightarrow> Inl e | Inr v \<Rightarrow> f v)"

subsection \<open>The stages on objects\<close>

text \<open>
  \<open>discard_rows\<close> writes the first three corrections into the table it was given
  (\<open>df.loc[...] = np.nan\<close>); \<open>groupby(...).apply(...)\<close> then builds a new table, which
  is returned.
\<close>

definition discard_rows :: "nat \<Rightarrow> prog" where
  "discard_rows a =
     pipe (pipe (pipe (in_place (null_negative ''new_cases'') a)
                      (in_place (null_negative ''new_deaths'')))
                (in_place (\<lambda>df. Inr (apply_corrections df))))
          (fresh hide_all_recent_zeros)"

text \<open>\<open>pd.concat\<close> builds a new table.\<close>

definition run_inject_owid_aggregates :: "refdata \<Rightarrow> nat \<Rightarrow> prog" where
  "run_inject_owid_aggregates ref = fresh (inject_owid_aggregates ref)"

text \<open>\<open>_inject_growth\<close> assigns columns of \<open>df\<close> and returns \<open>df\<close>.\<close>

definition run_inject_weekly_growth :: "nat \<Rightarrow> prog" where
  "run_inject_weekly_growth = in_place inject_weekly_growth"

definition run_inject_biweekly_growth :: "nat \<Rightarrow> prog" where
  "run_inject_biweekly_growth = in_place inject_biweekly_growth"

text \<open>
  \<open>inject_doubling_days\<close>: every turn of the loop writes into \<open>df\<close>, first the nulled
  zeros of the value column, then the new column; \<open>df\<close> itself is returned.
\<close>

definition inject_doubling_days :: "nat \<Rightarrow> prog" where
  "inject_doubling_days = each (\<lambda>spec. in_place (doubling_days_step spec)) doubling_days_spec"

text \<open>\<open>merge\<close> builds a new table, which then receives the per-million columns.\<close>

definition run_inject_per_million :: "refdata \<Rightarrow> string list \<Rightarrow> nat \<Rightarrow> prog" where
  "run_inject_per_million ref ms = fresh (inject_per_million ref ms)"

text \<open>\<open>df.copy()\<close>.\<close>

definition run_inject_rolling_avg :: "nat \<Rightarrow> prog" where
  "run_inject_rolling_avg = fresh inject_rolling_avg"

definition run_inject_cfr :: "nat \<Rightarrow> prog" where
  "run_inject_cfr = in_place inject_cfr"

definition run_inject_days_since :: "nat \<Rightarrow> prog" where
  "run_inject_days_since = fresh inject_days_since"

definition run_inject_exemplars :: "refdata \<Rightarrow> nat \<Rightarrow> prog" where
  "run_inject_exemplars ref = fresh (inject_exemplars ref)"

definition standardize_data :: "refdata \<Rightarrow> nat \<Rightarrow> prog" where
  "standardize_data ref df =
     pipe (pipe (pipe (pipe (pipe (pipe (pipe (pipe (pipe (pipe (pipe
       (fresh select_raw df)
       discard_rows)
       (run_inject_owid_aggregates ref))
       run_inject_weekly_growth)
       run_inject_biweekly_growth)
       inject_doubling_days)
       (run_inject_per_million ref
         [''new_cases'', ''new_deaths'', ''total_cases'', ''total_deaths'',
          ''weekly_cases'', ''weekly_deaths'', ''biweekly_cases'', ''biweekly_deaths'']))
       run_inject_rolling_avg)
       run_inject_cfr)
       run_inject_days_since)
       (run_inject_exemplars ref))
       (fresh (\<lambda>t. Inr (sort_by_location_date t)))"

subsection \<open>The stages on values\<close>

text \<open>What the stages compute from the contents of the table they are given.\<close>

definition discard_rows_table :: "dataframe \<Rightarrow> error + dataframe" where
  "discard_rows_table df =
     and_then (and_then (and_then (null_negative ''new_cases'' df)
                                  (null_negative ''new_deaths''))
                        (\<lambda>t. Inr (apply_corrections t)))
              hide_all_recent_zeros"

definition inject_doubling_days_table :: "dataframe \<Rightarrow> error + dataframe" where
  "inject_doubling_days_table df = steps doubling_days_step doubling_days_spec df"

definition standardize_table :: "refdata \<Rightarrow> dataframe \<Rightarrow> error + dataframe" where
  "standardize_table ref df =
     and_then (and_then (and_then (and_then (and_then (and_then (and_then (and_then
       (and_then (and_then (and_then
       (select_raw df)
       discard_rows_table)
       (inject_owid_aggregates ref))
       inject_weekly_growth)
       inject_biweekly_growth)
       inject_doubling_days_table)
       (inject_per_million ref
         [''new_cases'', ''new_deaths'', ''total_cases'', ''total_deaths'',
          ''weekly_cases'', ''weekly_deaths'', ''biweekly_cases'', ''biweekly_deaths'']))
       inject_rolling_avg)
       inject_cfr)
       inject_days_since)
       (inject_exemplars ref))
       (\<lambda>t. Inr (sort_by_location_date t))"

subsection \<open>Frames and contents\<close>

text \<open>
  A stage is framed at \<open>n\<close> when, run on a table at an address from \<open>n\<close> on, it leaves the
  first \<open>n\<close> tables of the store as they are and returns an address from \<open>n\<close> on.
\<close>

definition framed :: "nat \<Rightarrow> (nat \<Rightarrow> prog) \<Rightarrow> bool" where
  "framed n st =
     (\<forall>a s r s'. n \<le> a \<and> a < length s \<and> st a s = (r, s') \<longrightarrow>
        length s \<le> length s' \<and> take n s' = take n s \<and>
        (\<forall>a'. r = Inr a' \<longrightarrow> n \<le> a' \<and> a' < length s'))"

text \<open>A stage computes \<open>f\<close> when its result, or its exception, is that of \<open>f\<close> on the
  contents of its argument.\<close>

definition computes :: "(nat \<Rightarrow> prog) \<Rightarrow> (dataframe \<Rightarrow> error + dataframe) \<Rightarrow> bool" where
  "computes st f =
     (\<forall>a s r s'. a < length s \<and> st a s = (r, s') \<longrightarrow>
        (case r of Inl e \<Rightarrow> f (s ! a) = Inl e
                 | Inr a' \<Rightarrow> a' < length s' \<and> f (s ! a) = Inr (s' ! a')))"

text \<open>Every column of \<open>df\<close> is a column of \<open>out\<close>.\<close>

definition cols_kept :: "dataframe \<Rightarrow> dataframe \<Rightarrow> bool" where
  "cols_kept df out = (\<forall>c. has_col df c \<longrightarrow> has_col out c)"


section \<open>Evaluation of the example rows\<close>

lemma getc_mk_row [simp]:
  "getc ''new_cases'' (mk_row d l nc nd tc td) = nc"
  "getc ''new_deaths'' (mk_row d l nc nd tc td) = nd"
  "getc ''total_cases'' (mk_row d l nc nd tc td) = tc"
  "getc ''total_deaths'' (mk_row d l nc nd tc td) = td"
  "date (mk_row d l nc nd tc td) = d"
  "location (mk_row d l nc nd tc td) = l"
  by (simp_all add: getc_def mk_row_def)

lemma vals_mk_row [simp]:
  "vals (mk_row d l nc nd tc td) ''new_cases'' = Some nc"
  "vals (mk_row d l nc nd tc td) ''new_deaths'' = Some nd"
  "vals (mk_row d l nc nd tc td) ''total_cases'' = Some tc"
  "vals (mk_row d l nc nd tc td) ''total_deaths'' = Some td"
  by (simp_all add: mk_row_def)

lemma setc_mk_row [simp]:
  "setc ''new_cases'' v (mk_row d l nc nd tc td) = mk_row d l v nd tc td"
  "setc ''new_deaths'' v (mk_row d l nc nd tc td) = mk_row d l nc v tc td"
  "setc ''total_cases'' v (mk_row d l nc nd tc td) = mk_row d l nc nd v td"
  "setc ''total_deaths'' v (mk_row d l nc nd tc td) = mk_row d l nc nd tc v"
  by (simp_all add: setc_def mk_row_def fun_upd_twist)

section \<open>Columns, groups and assignments\<close>

lemma getc_setc [simp]: "getc c (setc c v r) = v"
  by (simp add: getc_def setc_def)

lemma getc_setc_other [simp]: "c' \<noteq> c \<Longrightarrow> getc c' (setc c v r) = getc c' r"
  by (simp add: getc_def setc_def)

lemma location_setc [simp]: "location (setc c v r) = location r"
  by (simp add: setc_def)

lemma date_setc [simp]: "date (setc c v r) = date r"
  by (simp add: setc_def)

lemma length_spread [simp]: "length (spread F df) = length df"
  by (simp add: spread_def)

lemma length_by_location [simp]: "length (by_location f df) = length df"
  by (simp add: by_location_def)

lemma length_assign [simp]: "length xs = length df \<Longrightarrow> length (assign c xs df) = length df"
  by (simp add: assign_def)

lemma length_rolling_sum [simp]: "length (rolling_sum w m xs) = length xs"
  by (simp add: rolling_sum_def)

lemma length_pct_change [simp]: "length (pct_change p xs) = length xs"
  by (simp add: pct_change_def)

lemma assign_nth:
  "i < length df \<Longrightarrow> length xs = length df \<Longrightarrow> assign c xs df ! i = setc c (xs ! i) (df ! i)"
  by (simp add: assign_def)

lemma map_location_assign [simp]:
  "length xs = length df \<Longrightarrow> map location (assign c xs df) = map location df"
  by (rule nth_equalityI) (simp_all add: assign_nth)

lemma map_date_assign [simp]:
  "length xs = length df \<Longrightarrow> map date (assign c xs df) = map date df"
  by (rule nth_equalityI) (simp_all add: assign_nth)










section \<open>Lemmas on the growth columns\<close>

lemma append_suffixD: "p @ s = t \<Longrightarrow> drop (length t - length s) t = s"
  by auto

lemma growth_colnames_distinct:
  "prefix @ ''_deaths'' \<noteq> ''new_cases''"
  "prefix @ ''_cases'' \<noteq> ''new_deaths''"
  "prefix @ ''_pct_growth_cases'' \<noteq> ''new_cases''"
  "prefix @ ''_pct_growth_cases'' \<noteq> ''new_deaths''"
  "prefix @ ''_pct_growth_deaths'' \<noteq> ''new_cases''"
  "prefix @ ''_pct_growth_deaths'' \<noteq> ''new_deaths''"
  by (auto dest: append_suffixD)

lemma inject_growth_Inr:
  assumes "inject_growth df prefix periods = Inr out"
  shows "has_col df ''new_cases'' \<and> has_col df ''new_deaths'' \<and>
    out = null_where_daily_null prefix (pct_growths prefix periods (rolling_sums prefix periods df))"
  using assms by (simp add: inject_growth_def split: if_splits)

lemma length_rolling_sums [simp]: "length (rolling_sums prefix periods df) = length df"
  by (simp add: rolling_sums_def)

lemma length_pct_growths [simp]: "length (pct_growths prefix periods df) = length df"
  by (simp add: pct_growths_def)

lemma length_null_where_daily_null [simp]: "length (null_where_daily_null prefix df) = length df"
  by (simp add: null_where_daily_null_def)

lemma length_inject_growth:
  "inject_growth df prefix periods = Inr out \<Longrightarrow> length out = length df"
  by (drule inject_growth_Inr) simp

lemma null_where_daily_null_nth:
  assumes "i < length df"
  shows "(isnull (getc ''new_cases'' (null_where_daily_null prefix df ! i)) \<longrightarrow>
            isnull (getc (prefix @ ''_cases'') (null_where_daily_null prefix df ! i))) \<and>
         (isnull (getc ''new_deaths'' (null_where_daily_null prefix df ! i)) \<longrightarrow>
            isnull (getc (prefix @ ''_deaths'') (null_where_daily_null prefix df ! i)))"
  using assms growth_colnames_distinct [of prefix]
  by (simp add: null_where_daily_null_def)

lemma map_location_rolling_sums [simp]:
  "map location (rolling_sums prefix periods df) = map location df"
  by (simp add: rolling_sums_def)












lemma growth_prefix_not_new:
  "prefix \<noteq> ''new'' \<Longrightarrow> prefix @ ''_cases'' \<noteq> ''new_cases''"
  "prefix \<noteq> ''new'' \<Longrightarrow> prefix @ ''_deaths'' \<noteq> ''new_deaths''"
  using append_same_eq [of prefix "''_cases''" "''new''"]
        append_same_eq [of prefix "''_deaths''" "''new''"] by simp_all

lemma vals_setc: "vals (setc c v r) c' = (if c' = c then Some v else vals r c')"
  by (simp add: setc_def)

lemma getc_cong_vals: "vals r c = vals r' c \<Longrightarrow> getc c r = getc c r'"
  by (simp add: getc_def)

lemma vals_assign_other:
  "i < length df \<Longrightarrow> length xs = length df \<Longrightarrow> c' \<noteq> c \<Longrightarrow>
   vals (assign c xs df ! i) c' = vals (df ! i) c'"
  by (simp add: assign_nth vals_setc)

lemma vals_rolling_sums_other:
  assumes "i < length df" and "c' \<noteq> prefix @ ''_cases''" and "c' \<noteq> prefix @ ''_deaths''"
  shows "vals (rolling_sums prefix periods df ! i) c' = vals (df ! i) c'"
  using assms by (simp add: rolling_sums_def vals_assign_other)

lemma vals_pct_growths_other:
  assumes "i < length df" and "c' \<noteq> prefix @ ''_pct_growth_cases''"
    and "c' \<noteq> prefix @ ''_pct_growth_deaths''"
  shows "vals (pct_growths prefix periods df ! i) c' = vals (df ! i) c'"
  using assms by (simp add: pct_growths_def vals_assign_other)

lemma vals_null_where_daily_null_other:
  assumes "i < length df" and "c' \<noteq> prefix @ ''_cases''" and "c' \<noteq> prefix @ ''_deaths''"
  shows "vals (null_where_daily_null prefix df ! i) c' = vals (df ! i) c'"
  using assms by (simp add: null_where_daily_null_def vals_setc)

lemma inject_growth_frame:
  assumes "inject_growth df prefix periods = Inr out" and "i < length df"
    and "c' \<noteq> prefix @ ''_cases''" and "c' \<noteq> prefix @ ''_deaths''"
    and "c' \<noteq> prefix @ ''_pct_growth_cases''" and "c' \<noteq> prefix @ ''_pct_growth_deaths''"
  shows "vals (out ! i) c' = vals (df ! i) c'"
proof -
  have "out = null_where_daily_null prefix (pct_growths prefix periods (rolling_sums prefix periods df))"
    using inject_growth_Inr [OF assms(1)] by simp
  then show ?thesis
    using assms(2-)
    by (simp add: vals_null_where_daily_null_other vals_pct_growths_other vals_rolling_sums_other)
qed

lemma inject_growth_keeps_daily:
  assumes "inject_growth df prefix periods = Inr out" and "i < length df" and "prefix \<noteq> ''new''"
  shows "getc ''new_cases'' (out ! i) = getc ''new_cases'' (df ! i)"
    and "getc ''new_deaths'' (out ! i) = getc ''new_deaths'' (df ! i)"
proof -
  have "vals (out ! i) ''new_cases'' = vals (df ! i) ''new_cases''"
    using assms(3) growth_colnames_distinct [of prefix] growth_prefix_not_new [OF assms(3)]
    by (intro inject_growth_frame [OF assms(1,2)]) (simp_all add: neq_commute)
  then show "getc ''new_cases'' (out ! i) = getc ''new_cases'' (df ! i)"
    by (rule getc_cong_vals)
  have "vals (out ! i) ''new_deaths'' = vals (df ! i) ''new_deaths''"
    using assms(3) growth_colnames_distinct [of prefix] growth_prefix_not_new [OF assms(3)]
    by (intro inject_growth_frame [OF assms(1,2)]) (simp_all add: neq_commute)
  then show "getc ''new_deaths'' (out ! i) = getc ''new_deaths'' (df ! i)"
    by (rule getc_cong_vals)
qed

section \<open>Lemmas on the stages as programs on the store\<close>

lemma framed_in_place: "framed n (in_place f)"
  by (auto simp: framed_def in_place_def split: sum.splits)

lemma framed_fresh: "framed n (fresh f)"
  by (auto simp: framed_def fresh_def split: sum.splits)

lemma framed_pipe:
  assumes "framed n st" and "framed n g"
  shows "framed n (\<lambda>a. pipe (st a) g)"
  unfolding framed_def
proof (intro allI impI)
  fix a s r s'
  assume h: "n \<le> a \<and> a < length s \<and> pipe (st a) g s = (r, s')"
  obtain r1 s1 where st: "st a s = (r1, s1)" by (cases "st a s") auto
  from assms(1) st h have f1: "length s \<le> length s1" "take n s1 = take n s"
    "\<forall>a'. r1 = Inr a' \<longrightarrow> n \<le> a' \<and> a' < length s1"
    unfolding framed_def by blast+
  show "length s \<le> length s' \<and> take n s' = take n s \<and>
        (\<forall>a'. r = Inr a' \<longrightarrow> n \<le> a' \<and> a' < length s')"
  proof (cases r1)
    case (Inl e)
    then have "r = Inl e" "s' = s1" using h st by (simp_all add: pipe_def)
    then show ?thesis using f1 by simp
  next
    case (Inr a1)
    then have g: "g a1 s1 = (r, s')" using h st by (simp add: pipe_def)
    have "n \<le> a1 \<and> a1 < length s1" using f1(3) Inr by simp
    with assms(2) g have "length s1 \<le> length s'" "take n s' = take n s1"
      "\<forall>a'. r = Inr a' \<longrightarrow> n \<le> a' \<and> a' < length s'"
      unfolding framed_def by blast+
    then show ?thesis using f1 by simp
  qed
qed

lemma framed_each:
  assumes "\<And>x. framed n (body x)"
  shows "framed n (each body xs)"
proof (induction xs)
  case Nil
  show ?case by (simp add: framed_def)
next
  case (Cons x xs)
  have "framed n (\<lambda>a. pipe (body x a) (each body xs))"
    using assms Cons.IH by (rule framed_pipe)
  moreover have "each body (x # xs) = (\<lambda>a. pipe (body x a) (each body xs))"
    by (rule ext) simp
  ultimately show ?case by simp
qed

lemma computes_in_place: "computes (in_place f) f"
  by (auto simp: computes_def in_place_def split: sum.splits)

lemma computes_fresh: "computes (fresh f) f"
  by (auto simp: computes_def fresh_def split: sum.splits)

lemma computes_pipe:
  assumes "computes st f" and "computes g h"
  shows "computes (\<lambda>a. pipe (st a) g) (\<lambda>df. and_then (f df) h)"
  unfolding computes_def
proof (intro allI impI)
  fix a s r s'
  assume p: "a < length s \<and> pipe (st a) g s = (r, s')"
  obtain r1 s1 where st: "st a s = (r1, s1)" by (cases "st a s") auto
  from assms(1) st p have c1: "case r1 of Inl e \<Rightarrow> f (s ! a) = Inl e
      | Inr a' \<Rightarrow> a' < length s1 \<and> f (s ! a) = Inr (s1 ! a')"
    unfolding computes_def by blast
  show "case r of Inl e \<Rightarrow> and_then (f (s ! a)) h = Inl e
      | Inr a' \<Rightarrow> a' < length s' \<and> and_then (f (s ! a)) h = Inr (s' ! a')"
  proof (cases r1)
    case (Inl e)
    then have "r = Inl e" using p st by (simp add: pipe_def)
    then show ?thesis using c1 Inl by (simp add: and_then_def)
  next
    case (Inr a1)
    then have g: "g a1 s1 = (r, s')" using p st by (simp add: pipe_def)
    have a1: "a1 < length s1" "f (s ! a) = Inr (s1 ! a1)" using c1 Inr by simp_all
    from assms(2) g a1(1) have "case r of Inl e \<Rightarrow> h (s1 ! a1) = Inl e
        | Inr a' \<Rightarrow> a' < length s' \<and> h (s1 ! a1) = Inr (s' ! a')"
      unfolding computes_def by blast
    then show ?thesis using a1(2) by (cases r) (simp_all add: and_then_def)
  qed
qed

lemma steps_and_then:
  "steps f (x # xs) df = and_then (f x df) (steps f xs)"
  by (simp add: and_then_def)

lemma computes_each:
  assumes "\<And>x. computes (body x) (f x)"
  shows "computes (each body xs) (steps f xs)"
proof (induction xs)
  case Nil
  show ?case by (simp add: computes_def)
next
  case (Cons x xs)
  have "computes (\<lambda>a. pipe (body x a) (each body xs)) (\<lambda>df. and_then (f x df) (steps f xs))"
    using assms Cons.IH by (rule computes_pipe)
  moreover have "each body (x # xs) = (\<lambda>a. pipe (body x a) (each body xs))"
    by (rule ext) simp
  moreover have "steps f (x # xs) = (\<lambda>df. and_then (f x df) (steps f xs))"
    by (rule ext) (simp add: and_then_def)
  ultimately show ?case by simp
qed

lemma framed_discard_rows: "framed n (\<lambda>a. discard_rows a)"
  unfolding discard_rows_def
  by (intro framed_pipe framed_in_place framed_fresh)

lemma framed_inject_doubling_days: "framed n inject_doubling_days"
  unfolding inject_doubling_days_def by (intro framed_each framed_in_place)

lemma computes_discard_rows:
  "computes (\<lambda>a. discard_rows a) (\<lambda>df. discard_rows_table df)"
  unfolding discard_rows_def discard_rows_table_def
  by (intro computes_pipe computes_in_place computes_fresh)

lemma computes_inject_doubling_days:
  "computes inject_doubling_days (\<lambda>df. inject_doubling_days_table df)"
  unfolding inject_doubling_days_def inject_doubling_days_table_def
  by (intro computes_each computes_in_place)

lemma framed_standardize_tail:
  "framed n (\<lambda>a. pipe (pipe (pipe (pipe (pipe (pipe (pipe (pipe (pipe (pipe
       (discard_rows a)
       (run_inject_owid_aggregates ref))
       run_inject_weekly_growth)
       run_inject_biweekly_growth)
       inject_doubling_days)
       (run_inject_per_million ref ms))
       run_inject_rolling_avg)
       run_inject_cfr)
       run_inject_days_since)
       (run_inject_exemplars ref))
       (fresh g))"
  unfolding run_inject_owid_aggregates_def run_inject_weekly_growth_def
    run_inject_biweekly_growth_def run_inject_per_million_def run_inject_rolling_avg_def
    run_inject_cfr_def run_inject_days_since_def run_inject_exemplars_def
  by (intro framed_pipe framed_in_place framed_fresh framed_discard_rows
      framed_inject_doubling_days)

lemma computes_standardize_data:
  "computes (\<lambda>a. standardize_data ref a) (\<lambda>df. standardize_table ref df)"
  unfolding standardize_data_def standardize_table_def
    run_inject_owid_aggregates_def run_inject_weekly_growth_def
    run_inject_biweekly_growth_def run_inject_per_million_def run_inject_rolling_avg_def
    run_inject_cfr_def run_inject_days_since_def run_inject_exemplars_def
  by (intro computes_pipe computes_in_place computes_fresh computes_discard_rows
      computes_inject_doubling_days)

section \<open>Lemmas on aggregate synthesis\<close>

lemma nansum_all_null: "\<forall>x \<in> set xs. isnull x \<Longrightarrow> nansum xs = Fin 0"
proof -
  assume "\<forall>x \<in> set xs. isnull x"
  then have "filter notnull xs = []" by (simp add: filter_empty_conv notnull_def)
  then show ?thesis by (simp add: nansum_def)
qed

lemma has_col_filter: "has_col df c \<Longrightarrow> has_col (filter P df) c"
  by (simp add: has_col_def list_all_iff)

lemma has_col_qualifying: "has_col df c \<Longrightarrow> has_col (qualifying df inc exc) c"
  by (simp add: qualifying_def Let_def has_col_filter)

lemma sum_columns_all_null:
  assumes "g \<noteq> []" and "has_col g c" and "\<forall>r \<in> set g. isnull (getc c r)"
  shows "sum_columns g c = Some (Fin 0)"
proof -
  obtain r rs where g: "g = r # rs" using assms(1) by (cases g) auto
  have "vals r c \<noteq> None" using assms(2) g by (simp add: has_col_def)
  moreover have "nansum (map (getc c) g) = Fin 0"
    using assms(3) by (intro nansum_all_null) simp
  ultimately show ?thesis using g by (auto simp: sum_columns_def)
qed

section \<open>The columns a stage needs and provides\<close>

lemma has_col_iff: "has_col df c \<longleftrightarrow> (\<forall>r \<in> set df. vals r c \<noteq> None)"
  by (simp add: has_col_def list_all_iff)

lemma has_col_map:
  assumes "has_col df c" and "\<And>r. r \<in> set df \<Longrightarrow> vals r c \<noteq> None \<Longrightarrow> vals (f r) c \<noteq> None"
  shows "has_col (map f df) c"
  using assms by (auto simp: has_col_iff)

lemma has_col_map_setc: "has_col (map (\<lambda>r. setc c (g r) r) df) c"
  by (simp add: has_col_iff vals_setc)

lemma has_col_map_setc_old:
  "has_col df c' \<Longrightarrow> has_col (map (\<lambda>r. setc c (g r) r) df) c'"
  by (auto simp: has_col_iff vals_setc)

lemma has_col_map_if_setc:
  "has_col df c' \<Longrightarrow> has_col (map (\<lambda>r. if P r then setc c (g r) r else r) df) c'"
  by (auto simp: has_col_iff vals_setc)

lemma set_assign:
  "length xs = length df \<Longrightarrow> r' \<in> set (assign c xs df) \<Longrightarrow>
   \<exists>r \<in> set df. \<exists>v. r' = setc c v r"
  by (auto simp: assign_def dest: set_zip_leftD)

lemma has_col_assign_new: "length xs = length df \<Longrightarrow> has_col (assign c xs df) c"
  by (auto simp: has_col_iff vals_setc dest!: set_assign)

lemma has_col_assign_old:
  "length xs = length df \<Longrightarrow> has_col df c' \<Longrightarrow> has_col (assign c xs df) c'"
  by (auto simp: has_col_iff vals_setc dest!: set_assign)

lemma has_col_append: "has_col (xs @ ys) c \<longleftrightarrow> has_col xs c \<and> has_col ys c"
  by (auto simp: has_col_iff)

lemma has_col_sort_key: "has_col (sort_key k df) c \<longleftrightarrow> has_col df c"
  by (simp add: has_col_iff)

lemma steps_ok:
  assumes "\<And>x df. x \<in> set xs \<Longrightarrow> Q df \<Longrightarrow> \<exists>out. f x df = Inr out \<and> Q out"
    and "Q df"
  shows "\<exists>out. steps f xs df = Inr out \<and> Q out"
  using assms
proof (induction xs arbitrary: df)
  case Nil
  then show ?case by simp
next
  case (Cons x xs)
  from Cons.prems obtain df' where d: "f x df = Inr df'" "Q df'" by (meson list.set_intros(1))
  have "\<exists>out. steps f xs df' = Inr out \<and> Q out"
    using Cons.prems(1) d(2) by (intro Cons.IH) auto
  then show ?case using d(1) by simp
qed

lemma cols_kept_refl [simp]: "cols_kept df df"
  by (simp add: cols_kept_def)

lemma cols_kept_trans: "cols_kept a b \<Longrightarrow> cols_kept b c \<Longrightarrow> cols_kept a c"
  by (simp add: cols_kept_def)

lemma cols_keptD: "cols_kept df out \<Longrightarrow> has_col df c \<Longrightarrow> has_col out c"
  by (simp add: cols_kept_def)

lemma cols_kept_assign: "length xs = length df \<Longrightarrow> cols_kept df (assign c xs df)"
  by (simp add: cols_kept_def has_col_assign_old)

lemma cols_kept_map_setc: "cols_kept df (map (\<lambda>r. setc c (g r) r) df)"
  by (simp add: cols_kept_def has_col_map_setc_old)

lemma cols_kept_map_if_setc: "cols_kept df (map (\<lambda>r. if P r then setc c (g r) r else r) df)"
  by (simp add: cols_kept_def has_col_map_if_setc)

lemma cols_kept_sort_key: "cols_kept df (sort_key k df)"
  by (simp add: cols_kept_def has_col_sort_key)

lemma steps_mono:
  assumes "\<And>x df. x \<in> set xs \<Longrightarrow> \<forall>c \<in> S. has_col df c \<Longrightarrow>
             \<exists>out. f x df = Inr out \<and> cols_kept df out \<and> has_col out (new x)"
    and "\<forall>c \<in> S. has_col df c"
  shows "\<exists>out. steps f xs df = Inr out \<and> cols_kept df out \<and> (\<forall>x \<in> set xs. has_col out (new x))"
  using assms
proof (induction xs arbitrary: df)
  case Nil
  then show ?case by simp
next
  case (Cons x xs)
  from Cons.prems obtain df' where d: "f x df = Inr df'" "cols_kept df df'" "has_col df' (new x)"
    by (meson list.set_intros(1))
  have S': "\<forall>c \<in> S. has_col df' c" using Cons.prems(2) d(2) by (auto dest: cols_keptD)
  have "\<exists>out. steps f xs df' = Inr out \<and> cols_kept df' out \<and> (\<forall>x \<in> set xs. has_col out (new x))"
    using Cons.prems(1) S' by (intro Cons.IH) auto
  then obtain out where o: "steps f xs df' = Inr out" "cols_kept df' out"
    "\<forall>x \<in> set xs. has_col out (new x)" by blast
  have "has_col out (new x)" using d(3) o(2) by (rule cols_keptD [rotated])
  then show ?case using d o by (auto intro: cols_kept_trans)
qed

lemma rolling_sums_cols:
  "cols_kept df (rolling_sums prefix periods df)"
  "has_col (rolling_sums prefix periods df) (prefix @ ''_cases'')"
  "has_col (rolling_sums prefix periods df) (prefix @ ''_deaths'')"
  by (simp_all add: rolling_sums_def cols_kept_def has_col_assign_old has_col_assign_new)

lemma pct_growths_cols:
  "cols_kept df (pct_growths prefix periods df)"
  "has_col (pct_growths prefix periods df) (prefix @ ''_pct_growth_cases'')"
  "has_col (pct_growths prefix periods df) (prefix @ ''_pct_growth_deaths'')"
  by (simp_all add: pct_growths_def cols_kept_def has_col_assign_old has_col_assign_new)

lemma null_where_daily_null_cols: "cols_kept df (null_where_daily_null prefix df)"
  unfolding null_where_daily_null_def
  by (rule cols_kept_trans [OF cols_kept_map_if_setc cols_kept_map_if_setc])

lemma inject_growth_ok:
  assumes "has_col df ''new_cases''" and "has_col df ''new_deaths''"
  shows "\<exists>out. inject_growth df prefix periods = Inr out \<and> cols_kept df out \<and>
           has_col out (prefix @ ''_cases'') \<and> has_col out (prefix @ ''_deaths'')"
proof -
  let ?a = "rolling_sums prefix periods df"
  let ?b = "pct_growths prefix periods ?a"
  let ?c = "null_where_daily_null prefix ?b"
  have "inject_growth df prefix periods = Inr ?c" using assms by (simp add: inject_growth_def)
  moreover have k: "cols_kept ?a ?c"
    by (rule cols_kept_trans [OF pct_growths_cols(1) null_where_daily_null_cols])
  moreover have "cols_kept df ?c" by (rule cols_kept_trans [OF rolling_sums_cols(1) k])
  moreover have "has_col ?c (prefix @ ''_cases'')"
    by (rule cols_keptD [OF k rolling_sums_cols(2)])
  moreover have "has_col ?c (prefix @ ''_deaths'')"
    by (rule cols_keptD [OF k rolling_sums_cols(3)])
  ultimately show ?thesis by blast
qed

lemma doubling_days_step_ok:
  assumes "has_col df vcol"
  shows "\<exists>out. doubling_days_step (col, vcol, periods) df = Inr out \<and> cols_kept df out \<and>
           has_col out col"
proof -
  have "cols_kept df (null_zeros vcol df)"
    unfolding null_zeros_def by (rule cols_kept_map_if_setc)
  then show ?thesis using assms
    by (auto simp: doubling_days_step_def Let_def null_zeros_def has_col_assign_new
        intro!: cols_kept_trans [OF _ cols_kept_assign])
qed

lemma inject_population_cols:
  "cols_kept df (inject_population ref df)"
  "has_col (inject_population ref df) ''population''"
  "has_col (inject_population ref df) ''population_year''"
  by (auto simp: inject_population_def cols_kept_def has_col_iff vals_setc split: option.splits)

lemma drop_population_ok:
  assumes "has_col df ''population''" and "has_col df ''population_year''"
  shows "\<exists>out. drop_population df = Inr out \<and>
           (\<forall>c. c \<noteq> ''population'' \<and> c \<noteq> ''population_year'' \<and> has_col df c \<longrightarrow> has_col out c)"
  using assms by (auto simp: drop_population_def has_col_iff)

lemma per_million_step_ok:
  assumes "has_col df m" and "has_col df ''population''"
  shows "\<exists>out. per_million_step m df = Inr out \<and> cols_kept df out \<and>
           has_col out (m @ ''_per_million'')"
  using assms by (auto simp: per_million_step_def cols_kept_map_setc has_col_map_setc)

lemma per_million_not_population:
  "m @ ''_per_million'' \<noteq> ''population''" "m @ ''_per_million'' \<noteq> ''population_year''"
  by (auto dest: append_suffixD)

lemma inject_per_million_ok:
  assumes "\<forall>m \<in> set ms. has_col df m"
  shows "\<exists>out. inject_per_million ref ms df = Inr out \<and>
           (\<forall>c. c \<noteq> ''population'' \<and> c \<noteq> ''population_year'' \<and> has_col df c \<longrightarrow> has_col out c) \<and>
           (\<forall>m \<in> set ms. has_col out (m @ ''_per_million''))"
proof -
  let ?p = "inject_population ref df"
  have S: "\<forall>c \<in> set ms \<union> {''population''}. has_col ?p c"
    using assms cols_keptD [OF inject_population_cols(1)] inject_population_cols(2) by auto
  have "\<exists>out. steps per_million_step ms ?p = Inr out \<and> cols_kept ?p out \<and>
      (\<forall>m \<in> set ms. has_col out (m @ ''_per_million''))"
    using S by (intro steps_mono [where S = "set ms \<union> {''population''}"])
      (auto intro: per_million_step_ok)
  then obtain t where t: "steps per_million_step ms ?p = Inr t" "cols_kept ?p t"
    "\<forall>m \<in> set ms. has_col t (m @ ''_per_million'')" by blast
  have "has_col t ''population''" "has_col t ''population_year''"
    by (rule cols_keptD [OF t(2) inject_population_cols(2)],
        rule cols_keptD [OF t(2) inject_population_cols(3)])
  from drop_population_ok [OF this] obtain out where
    o: "drop_population t = Inr out"
    "\<forall>c. c \<noteq> ''population'' \<and> c \<noteq> ''population_year'' \<and> has_col t c \<longrightarrow> has_col out c"
    by blast
  have "\<forall>c. has_col df c \<longrightarrow> has_col t c"
    using cols_keptD [OF t(2)] cols_keptD [OF inject_population_cols(1)] by blast
  then show ?thesis using t o per_million_not_population
    by (auto simp: inject_per_million_def)
qed

lemma rolling_avg_step_ok:
  assumes "has_col df src"
  shows "\<exists>out. rolling_avg_step (col, src, w, mp) df = Inr out \<and> cols_kept df out \<and>
           has_col out col"
proof -
  let ?d = "map (\<lambda>r. setc col (as_float (getc src r)) r) df"
  have "cols_kept df ?d" by (rule cols_kept_map_setc)
  moreover have "cols_kept ?d (assign col xs ?d)" if "length xs = length ?d" for xs
    using that by (rule cols_kept_assign)
  ultimately show ?thesis using assms
    by (auto simp: rolling_avg_step_def Let_def has_col_assign_new intro: cols_kept_trans)
qed

lemma inject_rolling_avg_ok:
  assumes "has_col df ''new_cases''" and "has_col df ''new_deaths''"
    and "has_col df ''new_cases_per_million''" and "has_col df ''new_deaths_per_million''"
  shows "\<exists>out. inject_rolling_avg df = Inr out \<and> cols_kept df out"
proof -
  let ?S = "{''new_cases'', ''new_deaths'', ''new_cases_per_million'', ''new_deaths_per_million''}"
  have S: "\<forall>c \<in> ?S. has_col (sort_key date df) c" using assms by (simp add: has_col_sort_key)
  have "\<exists>out. steps rolling_avg_step rolling_avg_spec (sort_key date df) = Inr out \<and>
      cols_kept (sort_key date df) out \<and> (\<forall>x \<in> set rolling_avg_spec. has_col out (fst x))"
    using S by (intro steps_mono [where S = ?S])
      (auto simp: rolling_avg_spec_def intro!: rolling_avg_step_ok)
  then show ?thesis
    using cols_kept_trans [OF cols_kept_sort_key] by (auto simp: inject_rolling_avg_def)
qed

lemma inject_cfr_ok:
  assumes "has_col df ''total_deaths''" and "has_col df ''total_cases''"
  shows "\<exists>out. inject_cfr df = Inr out \<and> cols_kept df out"
  using assms cols_kept_trans [OF cols_kept_map_setc cols_kept_map_setc]
  by (auto simp: inject_cfr_def)

lemma days_since_step_ok:
  assumes "has_col df (value_col spec)"
  shows "\<exists>out. days_since_step (col, spec) df = Inr out \<and> cols_kept df out \<and> has_col out col"
  using assms by (auto simp: days_since_step_def has_col_assign_new cols_kept_assign)

lemma length_days_since [simp]: "length (days_since df spec) = length df"
  by (simp add: days_since_def Let_def)

lemma inject_days_since_ok:
  assumes "has_col df ''total_cases''" and "has_col df ''total_deaths''"
    and "has_col df ''total_cases_per_million''" and "has_col df ''total_deaths_per_million''"
  shows "\<exists>out. inject_days_since df = Inr out \<and> cols_kept df out \<and>
           has_col out ''days_since_100_total_cases''"
proof -
  let ?S = "{''total_cases'', ''total_deaths'', ''total_cases_per_million'',
             ''total_deaths_per_million''}"
  have S: "\<forall>c \<in> ?S. has_col df c" using assms by simp
  have "\<exists>out. steps days_since_step days_since_spec df = Inr out \<and>
      cols_kept df out \<and> (\<forall>x \<in> set days_since_spec. has_col out (fst x))"
    using S by (intro steps_mono [where S = ?S])
      (auto simp: days_since_spec_def intro!: days_since_step_ok)
  then show ?thesis by (auto simp: inject_days_since_def days_since_spec_def)
qed

lemma inject_exemplars_ok:
  assumes "has_col df ''days_since_100_total_cases''"
  shows "\<exists>out. inject_exemplars ref df = Inr out \<and>
           (\<forall>c. c \<noteq> ''population'' \<and> c \<noteq> ''population_year'' \<and> has_col df c \<longrightarrow> has_col out c)"
proof -
  let ?p = "inject_population ref df"
  let ?a = "map (\<lambda>r. setc ''days_since_100_total_cases_and_5m_pop'' (mapper_days_since r) r) ?p"
  let ?b = "map (\<lambda>r. setc ''5m_pop_and_21_days_since_100_cases_and_testing''
                         (mapper_bool (testing_locations ref) r) r) ?a"
  have k: "cols_kept ?p ?b" by (rule cols_kept_trans [OF cols_kept_map_setc cols_kept_map_setc])
  have "has_col ?b ''population''" "has_col ?b ''population_year''"
    by (rule cols_keptD [OF k inject_population_cols(2)],
        rule cols_keptD [OF k inject_population_cols(3)])
  from drop_population_ok [OF this] obtain out where
    o: "drop_population ?b = Inr out"
    "\<forall>c. c \<noteq> ''population'' \<and> c \<noteq> ''population_year'' \<and> has_col ?b c \<longrightarrow> has_col out c"
    by blast
  have "\<forall>c. has_col df c \<longrightarrow> has_col ?b c"
    using cols_keptD [OF k] cols_keptD [OF inject_population_cols(1)] by blast
  then show ?thesis using assms o by (auto simp: inject_exemplars_def)
qed

lemma has_col_concat: "(\<forall>g \<in> set gs. has_col g c) \<Longrightarrow> has_col (concat gs) c"
  by (auto simp: has_col_iff)

lemma sum_columns_has:
  assumes "g \<noteq> []" and "has_col g c"
  shows "sum_columns g c \<noteq> None"
proof -
  obtain r rs where g: "g = r # rs" using assms(1) by (cases g) auto
  then have "vals r c \<noteq> None" using assms(2) by (simp add: has_col_iff)
  then show ?thesis using g by (auto simp: sum_columns_def)
qed

lemma has_col_sum_aggregate:
  assumes "has_col df c"
  shows "has_col (sum_aggregate df name inc exc) c"
proof -
  let ?q = "qualifying df inc exc"
  have q: "has_col ?q c" using assms by (rule has_col_qualifying)
  have "sum_columns (filter (\<lambda>r. date r = d) ?q) c \<noteq> None" if "d \<in> set (map date ?q)" for d
  proof (rule sum_columns_has)
    show "filter (\<lambda>r. date r = d) ?q \<noteq> []" using that by (auto simp: filter_empty_conv)
    show "has_col (filter (\<lambda>r. date r = d) ?q) c" using q by (rule has_col_filter)
  qed
  then show ?thesis by (auto simp: sum_aggregate_def Let_def has_col_iff)
qed

lemma inject_owid_aggregates_ok:
  assumes "aggregates_spec ref = Inr specs"
  shows "\<exists>out. inject_owid_aggregates ref df = Inr out \<and> cols_kept df out"
proof -
  have "has_col (concat (map (\<lambda>(name, inc, exc). sum_aggregate df name inc exc) specs)) c"
    if "has_col df c" for c
    using that by (intro has_col_concat) (auto simp: has_col_sum_aggregate)
  then show ?thesis using assms
    by (auto simp: inject_owid_aggregates_def cols_kept_def has_col_append)
qed

lemma fold_max_in: "fold max ds (d::int) \<in> set (d # ds)"
proof (induction ds arbitrary: d)
  case Nil
  then show ?case by simp
next
  case (Cons x xs)
  have "fold max xs (max x d) \<in> set (max x d # xs)" by (rule Cons.IH)
  moreover have "max x d = x \<or> max x d = d" by (simp add: max_def)
  ultimately show ?case by auto
qed

lemma max_date_in: "max_date ds = Some d \<Longrightarrow> d \<in> set ds"
  using fold_max_in by (cases ds) auto

lemma last_positive_date_in:
  "last_positive_date col g = Some d \<Longrightarrow> d \<in> set (map date g)"
  by (auto simp: last_positive_date_def dest!: max_date_in)

lemma filter_date_single:
  assumes "distinct (map date g)" and "d \<in> set (map date g)"
  shows "\<exists>r. filter (\<lambda>r. date r = d) g = [r]"
  using assms
proof (induction g)
  case Nil
  then show ?case by simp
next
  case (Cons a g)
  show ?case
  proof (cases "date a = d")
    case True
    then have "d \<notin> set (map date g)" using Cons.prems(1) by auto
    then have "filter (\<lambda>r. date r = d) g = []" by (auto simp: filter_empty_conv)
    then show ?thesis using True by simp
  next
    case False
    then show ?thesis using Cons by auto
  qed
qed

lemma hide_after_ok:
  assumes "distinct (map date g)" and "lp \<in> set (map date g)"
  shows "\<exists>out. hide_after col least lr lp g = Inr out \<and> cols_kept g out \<and>
           map date out = map date g"
proof -
  obtain r where "filter (\<lambda>r. date r = lp) g = [r]"
    using filter_date_single [OF assms] by blast
  then show ?thesis
    by (auto simp: hide_after_def cols_kept_map_if_setc o_def)
qed

lemma hide_recent_zeros_ok:
  assumes "has_col g ''new_cases''" and "has_col g ''new_deaths''" and "distinct (map date g)"
  shows "\<exists>out. hide_recent_zeros g = Inr out \<and> cols_kept g out"
proof (cases "max_date (map date g)")
  case None
  then show ?thesis using assms by (simp add: hide_recent_zeros_def)
next
  case (Some lr)
  show ?thesis
  proof (cases "last_positive_date ''new_cases'' g")
    case None
    then show ?thesis using assms Some by (simp add: hide_recent_zeros_def)
  next
    case lc: (Some lpc)
    from hide_after_ok [OF assms(3) last_positive_date_in [OF lc]]
    obtain g1 where g1: "hide_after ''new_cases'' 100 lr lpc g = Inr g1" "cols_kept g g1"
      "map date g1 = map date g" by blast
    show ?thesis
    proof (cases "last_positive_date ''new_deaths'' g1")
      case None
      then show ?thesis using assms Some lc g1 by (simp add: hide_recent_zeros_def)
    next
      case ld: (Some lpd)
      have "distinct (map date g1)" using assms(3) g1(3) by simp
      from hide_after_ok [OF this last_positive_date_in [OF ld]]
      obtain g2 where g2: "hide_after ''new_deaths'' 10 lr lpd g1 = Inr g2" "cols_kept g1 g2"
        by blast
      have "cols_kept g g2" using g1(2) g2(2) by (rule cols_kept_trans)
      then show ?thesis using assms Some lc g1 ld g2 by (simp add: hide_recent_zeros_def)
    qed
  qed
qed

lemma collect_ok:
  assumes "\<forall>x \<in> set xs. \<exists>v. x = Inr v \<and> P v"
  shows "\<exists>vs. collect xs = Inr vs \<and> (\<forall>v \<in> set vs. P v)"
  using assms
proof (induction xs)
  case Nil
  then show ?case by simp
next
  case (Cons x xs)
  then obtain v where v: "x = Inr v" "P v" by auto
  from Cons obtain vs where "collect xs = Inr vs" "\<forall>v \<in> set vs. P v" by auto
  then show ?case using v by auto
qed

lemma groupby_apply_ok:
  assumes "\<And>l. l \<in> set (map location df) \<Longrightarrow> \<exists>out. f (group_of l df) = Inr out \<and> P out"
  shows "\<exists>gs. groupby_apply f df = Inr (concat gs) \<and> (\<forall>g \<in> set gs. P g)"
proof -
  have "\<forall>x \<in> set (map (\<lambda>l. f (group_of l df)) (sort (remdups (map location df)))).
      \<exists>v. x = Inr v \<and> P v"
    using assms by auto
  from collect_ok [OF this] show ?thesis by (auto simp: groupby_apply_def)
qed

lemma distinct_group_dates:
  "distinct (map (\<lambda>r. (location r, date r)) df) \<Longrightarrow> distinct (map date (group_of l df))"
proof (induction df)
  case Nil
  then show ?case by (simp add: group_of_def)
next
  case (Cons a df)
  have "date a \<notin> date ` set (group_of (location a) df)"
  proof
    assume "date a \<in> date ` set (group_of (location a) df)"
    then obtain x where "x \<in> set df" "location x = location a" "date x = date a"
      by (auto simp: group_of_def)
    then have "(location a, date a) \<in> (\<lambda>r. (location r, date r)) ` set df"
      by (metis (mono_tags, lifting) image_eqI)
    then show False using Cons.prems by simp
  qed
  then show ?case using Cons by (auto simp: group_of_def)
qed

lemma distinct_map_sort_key:
  "distinct (map f (sort_key k xs)) \<longleftrightarrow> distinct (map f xs)"
proof -
  have "mset (map f (sort_key k xs)) = mset (map f xs)" by simp
  then show ?thesis by (rule mset_eq_imp_distinct_iff)
qed

lemma hide_all_recent_zeros_ok:
  assumes "has_col df ''new_cases''" and "has_col df ''new_deaths''"
    and "distinct (map (\<lambda>r. (location r, date r)) df)"
  shows "\<exists>out. hide_all_recent_zeros df = Inr out \<and> cols_kept df out"
proof -
  let ?s = "sort_by_location_date df"
  have d: "distinct (map (\<lambda>r. (location r, date r)) ?s)"
    using assms(3) by (simp add: sort_by_location_date_def distinct_map_sort_key)
  have c: "has_col ?s c" if "has_col df c" for c
    using that by (simp add: sort_by_location_date_def has_col_sort_key)
  have "\<exists>out. hide_recent_zeros (group_of l ?s) = Inr out \<and>
      (\<forall>c. has_col df c \<longrightarrow> has_col out c)" for l
  proof -
    have g: "has_col (group_of l ?s) c" if "has_col df c" for c
      using c [OF that] by (simp add: group_of_def has_col_filter)
    from hide_recent_zeros_ok [OF g [OF assms(1)] g [OF assms(2)] distinct_group_dates [OF d]]
    obtain out where "hide_recent_zeros (group_of l ?s) = Inr out" "cols_kept (group_of l ?s) out"
      by blast
    then show ?thesis using g by (auto dest: cols_keptD)
  qed
  then have "\<exists>gs. groupby_apply hide_recent_zeros ?s = Inr (concat gs) \<and>
      (\<forall>g \<in> set gs. \<forall>c. has_col df c \<longrightarrow> has_col g c)"
    by (intro groupby_apply_ok) blast
  then show ?thesis
    by (auto simp: hide_all_recent_zeros_def cols_kept_def intro!: has_col_concat)
qed

lemma keys_apply_corrections:
  "map (\<lambda>r. (location r, date r)) (apply_corrections df) = map (\<lambda>r. (location r, date r)) df"
proof -
  have "map (\<lambda>r. (location r, date r)) (foldl (\<lambda>d ldc. apply_correction ldc d) df cs) =
        map (\<lambda>r. (location r, date r)) df" for cs
    by (induction cs arbitrary: df) (auto simp: apply_correction_def o_def)
  then show ?thesis by (simp add: apply_corrections_def)
qed

lemma cols_kept_apply_corrections: "cols_kept df (apply_corrections df)"
proof -
  have "cols_kept df (foldl (\<lambda>d ldc. apply_correction ldc d) df cs)" for cs
  proof (induction cs arbitrary: df)
    case Nil
    show ?case by simp
  next
    case (Cons x cs)
    have "cols_kept df (apply_correction x df)"
      by (cases x) (simp add: apply_correction_def cols_kept_map_if_setc)
    then show ?case using Cons.IH by (auto intro: cols_kept_trans)
  qed
  then show ?thesis by (simp add: apply_corrections_def)
qed

lemma discard_rows_table_ok:
  assumes "has_col df ''new_cases''" and "has_col df ''new_deaths''"
    and "distinct (map (\<lambda>r. (location r, date r)) df)"
  shows "\<exists>out. discard_rows_table df = Inr out \<and> cols_kept df out"
proof -
  let ?a = "map (\<lambda>r. if clt (getc ''new_cases'' r) 0 then setc ''new_cases'' NaN r else r) df"
  let ?b = "map (\<lambda>r. if clt (getc ''new_deaths'' r) 0 then setc ''new_deaths'' NaN r else r) ?a"
  let ?c = "apply_corrections ?b"
  have ka: "cols_kept df ?a" by (rule cols_kept_map_if_setc)
  have kb: "cols_kept ?a ?b" by (rule cols_kept_map_if_setc)
  have kc: "cols_kept df ?c"
    by (rule cols_kept_trans [OF ka cols_kept_trans [OF kb cols_kept_apply_corrections]])
  have n1: "null_negative ''new_cases'' df = Inr ?a" using assms(1) by (simp add: null_negative_def)
  have n2: "null_negative ''new_deaths'' ?a = Inr ?b"
    using cols_keptD [OF ka assms(2)] by (simp add: null_negative_def)
  have "map (\<lambda>r. (location r, date r)) ?c = map (\<lambda>r. (location r, date r)) df"
    by (simp add: keys_apply_corrections o_def)
  then have d: "distinct (map (\<lambda>r. (location r, date r)) ?c)" using assms(3) by simp
  from hide_all_recent_zeros_ok [OF cols_keptD [OF kc assms(1)] cols_keptD [OF kc assms(2)] d]
  obtain out where "hide_all_recent_zeros ?c = Inr out" "cols_kept ?c out" by blast
  then show ?thesis using n1 n2 kc
    by (auto simp: discard_rows_table_def and_then_def intro: cols_kept_trans)
qed

lemma select_raw_ok:
  assumes "list_all (has_col df) RAW_MEASURES"
  shows "\<exists>out. select_raw df = Inr out \<and> (\<forall>c \<in> set RAW_MEASURES. has_col out c) \<and>
           map (\<lambda>r. (location r, date r)) out = map (\<lambda>r. (location r, date r)) df"
  using assms by (auto simp: select_raw_def has_col_iff list_all_iff o_def)

lemma inject_doubling_days_table_ok:
  assumes "has_col df ''total_cases''" and "has_col df ''total_deaths''"
  shows "\<exists>out. inject_doubling_days_table df = Inr out \<and> cols_kept df out"
proof -
  let ?S = "{''total_cases'', ''total_deaths''}"
  have S: "\<forall>c \<in> ?S. has_col df c" using assms by simp
  have "\<exists>out. steps doubling_days_step doubling_days_spec df = Inr out \<and>
      cols_kept df out \<and> (\<forall>x \<in> set doubling_days_spec. has_col out (fst x))"
    using S by (intro steps_mono [where S = ?S])
      (auto simp: doubling_days_spec_def intro!: doubling_days_step_ok)
  then show ?thesis by (auto simp: inject_doubling_days_table_def)
qed

lemma standardize_table_ok:
  assumes raw: "list_all (has_col df) RAW_MEASURES"
    and keys: "distinct (map (\<lambda>r. (location r, date r)) df)"
    and specs: "aggregates_spec ref = Inr specs"
  shows "\<exists>out. standardize_table ref df = Inr out"
proof -
  let ?ms = "[''new_cases'', ''new_deaths'', ''total_cases'', ''total_deaths'',
          ''weekly_cases'', ''weekly_deaths'', ''biweekly_cases'', ''biweekly_deaths'']"
  from select_raw_ok [OF raw] obtain t1 where t1: "select_raw df = Inr t1"
    "\<forall>c \<in> set RAW_MEASURES. has_col t1 c"
    "map (\<lambda>r. (location r, date r)) t1 = map (\<lambda>r. (location r, date r)) df" by blast
  have c1: "has_col t1 ''new_cases''" "has_col t1 ''new_deaths''"
    "has_col t1 ''total_cases''" "has_col t1 ''total_deaths''"
    using t1(2) by (simp_all add: RAW_MEASURES_def)
  have d1: "distinct (map (\<lambda>r. (location r, date r)) t1)" using keys t1(3) by simp
  from discard_rows_table_ok [OF c1(1,2) d1] obtain t2 where
    t2: "discard_rows_table t1 = Inr t2" "cols_kept t1 t2" by blast
  from inject_owid_aggregates_ok [OF specs] obtain t3 where
    t3: "inject_owid_aggregates ref t2 = Inr t3" "cols_kept t2 t3" by blast
  have k3: "cols_kept t1 t3" using t2(2) t3(2) by (rule cols_kept_trans)
  from inject_growth_ok [OF cols_keptD [OF k3 c1(1)] cols_keptD [OF k3 c1(2)]]
  obtain t4 where t4: "inject_growth t3 ''weekly'' 7 = Inr t4" "cols_kept t3 t4"
    "has_col t4 (''weekly'' @ ''_cases'')" "has_col t4 (''weekly'' @ ''_deaths'')" by blast
  have k4: "cols_kept t1 t4" using k3 t4(2) by (rule cols_kept_trans)
  from inject_growth_ok [OF cols_keptD [OF k4 c1(1)] cols_keptD [OF k4 c1(2)]]
  obtain t5 where t5: "inject_growth t4 ''biweekly'' 14 = Inr t5" "cols_kept t4 t5"
    "has_col t5 (''biweekly'' @ ''_cases'')" "has_col t5 (''biweekly'' @ ''_deaths'')" by blast
  have k5: "cols_kept t1 t5" using k4 t5(2) by (rule cols_kept_trans)
  from inject_doubling_days_table_ok [OF cols_keptD [OF k5 c1(3)] cols_keptD [OF k5 c1(4)]]
  obtain t6 where t6: "inject_doubling_days_table t5 = Inr t6" "cols_kept t5 t6" by blast
  have k6: "cols_kept t1 t6" using k5 t6(2) by (rule cols_kept_trans)
  have w6: "has_col t6 ''weekly_cases''" "has_col t6 ''weekly_deaths''"
    "has_col t6 ''biweekly_cases''" "has_col t6 ''biweekly_deaths''"
    using t4(3,4) t5(3,4) cols_keptD [OF t5(2)] cols_keptD [OF t6(2)] by simp_all
  have m6: "\<forall>m \<in> set ?ms. has_col t6 m"
    using w6 c1 cols_keptD [OF k6] by simp
  from inject_per_million_ok [OF m6] obtain t7 where
    t7: "inject_per_million ref ?ms t6 = Inr t7"
    "\<forall>c. c \<noteq> ''population'' \<and> c \<noteq> ''population_year'' \<and> has_col t6 c \<longrightarrow> has_col t7 c"
    "\<forall>m \<in> set ?ms. has_col t7 (m @ ''_per_million'')" by blast
  have c7: "has_col t7 ''new_cases''" "has_col t7 ''new_deaths''"
    "has_col t7 ''total_cases''" "has_col t7 ''total_deaths''"
    using t7(2) c1 cols_keptD [OF k6] by simp_all
  have p7: "has_col t7 ''new_cases_per_million''" "has_col t7 ''new_deaths_per_million''"
    "has_col t7 ''total_cases_per_million''" "has_col t7 ''total_deaths_per_million''"
    using t7(3) by simp_all
  from inject_rolling_avg_ok [OF c7(1,2) p7(1,2)] obtain t8 where
    t8: "inject_rolling_avg t7 = Inr t8" "cols_kept t7 t8" by blast
  from inject_cfr_ok [OF cols_keptD [OF t8(2) c7(4)] cols_keptD [OF t8(2) c7(3)]]
  obtain t9 where t9: "inject_cfr t8 = Inr t9" "cols_kept t8 t9" by blast
  have k9: "cols_kept t7 t9" using t8(2) t9(2) by (rule cols_kept_trans)
  from inject_days_since_ok [OF cols_keptD [OF k9 c7(3)] cols_keptD [OF k9 c7(4)]
      cols_keptD [OF k9 p7(3)] cols_keptD [OF k9 p7(4)]]
  obtain t10 where t10: "inject_days_since t9 = Inr t10"
    "has_col t10 ''days_since_100_total_cases''" by blast
  from inject_exemplars_ok [OF t10(2)] obtain t11 where
    t11: "inject_exemplars ref t10 = Inr t11" by blast
  show ?thesis
    using t1(1) t2(1) t3(1) t4(1) t5(1) t6(1) t7(1) t8(1) t9(1) t10(1) t11
    by (simp add: standardize_table_def and_then_def inject_weekly_growth_def
        inject_biweekly_growth_def)
qed

section \<open>Properties of the growth columns\<close>




section \<open>Properties of the trailing-zero suppression\<close>

text \<open>
  Claim C3 says that the two metrics are treated independently: a location with no positive
  value for one metric keeps that column, and the rule is still applied to the other
  metric. The code returns early when \<open>new_cases\<close> has no positive value, so the deaths
  block is never reached. On \<open>quiet_cases_df\<close> (no positive case; deaths 20 then 0 on the
  last day) the table comes back unchanged and the trailing zero of \<open>new_deaths\<close> stays,
  while on \<open>one_case_df\<close>, which differs only by one positive case on the first day, the
  same trailing zero is nulled.
\<close>

theorem hide_recent_zeros_skips_deaths:
  "hide_recent_zeros quiet_cases_df = Inr quiet_cases_df \<and>
   map (getc ''new_deaths'') quiet_cases_df = [Fin 20, Fin 0] \<and>
   (\<exists>df'. hide_recent_zeros one_case_df = Inr df' \<and>
      map (getc ''new_deaths'') df' = [Fin 20, NaN])"
  by (simp add: hide_recent_zeros_def quiet_cases_df_def one_case_df_def has_col_def
      last_positive_date_def hide_after_def)

text \<open>
  Claim C4. In every row of the table that \<open>_inject_growth\<close> returns, a missing
  \<open>new_cases\<close> (respectively \<open>new_deaths\<close>) forces the rolling-sum column of cases
  (respectively deaths) to be missing, for the weekly and the biweekly prefix alike.
\<close>

theorem inject_growth_null_daily:
  assumes "inject_growth df prefix periods = Inr out" and "i < length out"
  shows "(isnull (getc ''new_cases'' (out ! i)) \<longrightarrow> isnull (getc (prefix @ ''_cases'') (out ! i))) \<and>
         (isnull (getc ''new_deaths'' (out ! i)) \<longrightarrow> isnull (getc (prefix @ ''_deaths'') (out ! i)))"
proof -
  note o = inject_growth_Inr [OF assms(1)]
  have "i < length (pct_growths prefix periods (rolling_sums prefix periods df))"
    using assms length_inject_growth by simp
  from null_where_daily_null_nth [OF this] show ?thesis using o by simp
qed


text \<open>
  The theorem on \<open>null_day_df\<close>: the seventh day has no \<open>new_cases\<close>, the window holds six
  values (enough for \<open>min_periods\<close>, the rolling sum is 6), and \<open>weekly_cases\<close> is null.
\<close>

theorem inject_growth_null_daily_witness:
  "inject_growth null_day_df ''weekly'' 7 =
     Inr (null_where_daily_null ''weekly''
            (pct_growths ''weekly'' 7 (rolling_sums ''weekly'' 7 null_day_df))) \<and>
   6 < length (null_where_daily_null ''weekly''
            (pct_growths ''weekly'' 7 (rolling_sums ''weekly'' 7 null_day_df))) \<and>
   rolling_sum 7 6 (map (getc ''new_cases'') null_day_df) ! 6 = Fin 6 \<and>
   isnull (getc ''new_cases'' (null_where_daily_null ''weekly''
            (pct_growths ''weekly'' 7 (rolling_sums ''weekly'' 7 null_day_df)) ! 6)) \<and>
   isnull (getc ''weekly_cases'' (null_where_daily_null ''weekly''
            (pct_growths ''weekly'' 7 (rolling_sums ''weekly'' 7 null_day_df)) ! 6))"
proof -
  let ?out = "null_where_daily_null ''weekly''
            (pct_growths ''weekly'' 7 (rolling_sums ''weekly'' 7 null_day_df))"
  have h1: "inject_growth null_day_df ''weekly'' 7 = Inr ?out"
    by (simp add: inject_growth_def has_col_def null_day_df_def daily_def)
  have h2: "6 < length ?out" by (simp add: null_day_df_def)
  have i: "6 < length null_day_df" by (simp add: null_day_df_def)
  have s: "rolling_sum 7 6 (map (getc ''new_cases'') null_day_df) ! 6 = Fin 6"
    by code_simp
  have n: "isnull (getc ''new_cases'' (?out ! 6))"
  proof -
    have "getc ''new_cases'' (?out ! 6) = getc ''new_cases'' (null_day_df ! 6)"
      by (rule inject_growth_keeps_daily(1) [OF h1 i]) simp
    then show ?thesis by (simp add: null_day_df_def daily_def)
  qed
  from inject_growth_null_daily [OF h1 h2] n
  have w: "isnull (getc ''weekly_cases'' (?out ! 6))" by simp
  show ?thesis by (intro conjI h1 h2 s n w)
qed

section \<open>Properties of the doubling-days transform\<close>




section \<open>Properties of the days-since columns\<close>




section \<open>Properties of the wide pivot export\<close>

lemma pivot_columns_set:
  "remove1 w (sort (remdups ls)) = sorted_list_of_set (set ls - {w})"
proof -
  have "sort (remdups ls) = sorted_list_of_set (set ls)"
    by (simp add: sorted_list_of_set_sort_remdups)
  then show ?thesis by (simp add: sorted_list_of_set_remove)
qed

lemma pivot_export_Inr:
  assumes "pivot_export df output_path c = Inr f"
  shows "kind f = Pivot \<and> file_name f = c @ ''.csv'' \<and> ''World'' \<in> location ` set df \<and>
         header f = ''date'' # ''World'' # sorted_list_of_set (location ` set df - {''World''})"
proof -
  from assms obtain p where p: "pivot df c = Inr p"
    by (auto simp: pivot_export_def split: sum.splits)
  then have cols: "pcolumns p = sort (remdups (map location df))"
    by (auto simp: pivot_def split: if_splits)
  from assms p obtain cols where w: "world_first (pcolumns p) = Inr cols"
    by (auto simp: pivot_export_def split: sum.splits)
  then have c: "''World'' \<in> set (pcolumns p)" "cols = ''World'' # remove1 ''World'' (pcolumns p)"
    by (auto simp: world_first_def split: if_splits)
  have "cols = ''World'' # sorted_list_of_set (location ` set df - {''World''})"
    using c(2) cols pivot_columns_set [of "''World''" "map location df"] by simp
  moreover have "''World'' \<in> location ` set df" using c(1) cols by simp
  ultimately show ?thesis using assms p w by (auto simp: pivot_export_def)
qed

lemma pivot_export_no_world:
  assumes "''World'' \<notin> location ` set df"
  shows "\<exists>e. pivot_export df output_path c = Inl e"
proof (cases "pivot_export df output_path c")
  case (Inl e)
  then show ?thesis by blast
next
  case (Inr f)
  then show ?thesis using pivot_export_Inr [OF Inr] assms by simp
qed

lemma pivot_loop_written:
  assumes "pivot_loop df output_path ms w = (files, res)"
  shows "\<exists>ps. files = w @ ps \<and> length ps \<le> length ms \<and>
           (\<forall>i < length ps. pivot_export df output_path (ms ! i) = Inr (ps ! i)) \<and>
           (res = Inr True \<longrightarrow> length ps = length ms)"
  using assms
proof (induction ms arbitrary: w)
  case Nil
  then show ?case by simp
next
  case (Cons m ms)
  show ?case
  proof (cases "pivot_export df output_path m")
    case (Inl e)
    then show ?thesis using Cons.prems by auto
  next
    case (Inr f)
    then have "pivot_loop df output_path ms (w @ [f]) = (files, res)"
      using Cons.prems by simp
    from Cons.IH [OF this] obtain ps where ps: "files = (w @ [f]) @ ps" "length ps \<le> length ms"
      "\<forall>i < length ps. pivot_export df output_path (ms ! i) = Inr (ps ! i)"
      "res = Inr True \<longrightarrow> length ps = length ms" by blast
    have "\<forall>i < length (f # ps). pivot_export df output_path ((m # ms) ! i) = Inr ((f # ps) ! i)"
      using ps(3) Inr by (auto simp: nth_Cons split: nat.splits)
    then show ?thesis using ps(1,2,4)
      by (intro exI [of _ "f # ps"]) simp
  qed
qed

lemma pivot_loop_no_world:
  assumes "''World'' \<notin> location ` set df" and "ms \<noteq> []"
  shows "\<exists>e. pivot_loop df output_path ms w = (w, Inl e)"
proof -
  obtain m ms' where ms: "ms = m # ms'" using assms(2) by (cases ms) auto
  obtain e where "pivot_export df output_path m = Inl e"
    using pivot_export_no_world [OF assms(1)] by blast
  then show ?thesis using ms by simp
qed

lemma kind_grapher_export: "grapher_export df output_path n = Inr g \<Longrightarrow> kind g = Grapher"
  by (auto simp: grapher_export_def Let_def split: if_splits)

lemma kind_full_data_export: "full_data_export df output_path = Inr f \<Longrightarrow> kind f = Full_data"
  by (auto simp: full_data_export_def Let_def split: if_splits)

lemma map_file_name_eq:
  assumes "length ps = length ms" and "\<forall>i < length ps. file_name (ps ! i) = ms ! i @ ''.csv''"
  shows "map file_name ps = map (\<lambda>m. m @ ''.csv'') ms"
  using assms by (intro list_eq_iff_nth_eq [THEN iffD2]) simp

lemma standard_export_ok:
  assumes "standard_export ref df output_path grapher_name = (files, Inr True)"
    and "aggregates_spec ref = Inr specs"
  shows "\<exists>g f ps. files = [g, f] @ ps \<and> kind g = Grapher \<and> kind f = Full_data \<and>
           length ps = length (BASE_MEASURES @ PER_MILLION_MEASURES) \<and>
           (\<forall>i < length ps. pivot_export (df_table_of specs df) output_path
                               ((BASE_MEASURES @ PER_MILLION_MEASURES) ! i) = Inr (ps ! i))"
proof -
  from assms obtain g where g: "grapher_export df output_path grapher_name = Inr g"
    by (auto simp: standard_export_def split: sum.splits)
  from assms g obtain f where f: "full_data_export (df_table_of specs df) output_path = Inr f"
    by (auto simp: standard_export_def Let_def split: sum.splits)
  from assms g f have "pivot_loop (df_table_of specs df) output_path
      (BASE_MEASURES @ PER_MILLION_MEASURES) [g, f] = (files, Inr True)"
    by (simp add: standard_export_def Let_def)
  from pivot_loop_written [OF this] kind_grapher_export [OF g] kind_full_data_export [OF f]
  show ?thesis by blast
qed

lemma standard_export_no_world:
  assumes "''World'' \<notin> location ` set df"
  shows "\<exists>e. snd (standard_export ref df output_path grapher_name) = Inl e"
    and "\<forall>f \<in> set (fst (standard_export ref df output_path grapher_name)). kind f \<noteq> Pivot"
proof -
  have ms: "BASE_MEASURES @ PER_MILLION_MEASURES \<noteq> []" by (simp add: BASE_MEASURES_def)
  have "(\<exists>e. snd (standard_export ref df output_path grapher_name) = Inl e) \<and>
        (\<forall>f \<in> set (fst (standard_export ref df output_path grapher_name)). kind f \<noteq> Pivot)"
  proof (cases "aggregates_spec ref")
    case (Inl e)
    then show ?thesis by (simp add: standard_export_def)
  next
    case specs: (Inr specs)
    show ?thesis
    proof (cases "grapher_export df output_path grapher_name")
      case (Inl e)
      then show ?thesis using specs by (simp add: standard_export_def)
    next
      case g: (Inr g)
      show ?thesis
      proof (cases "full_data_export (df_table_of specs df) output_path")
        case (Inl e)
        then show ?thesis using specs g kind_grapher_export [OF g]
          by (simp add: standard_export_def Let_def)
      next
        case f: (Inr f)
        have "''World'' \<notin> location ` set (df_table_of specs df)"
          using assms by (auto simp: df_table_of_def)
        from pivot_loop_no_world [OF this ms] obtain e where
          "pivot_loop (df_table_of specs df) output_path
             (BASE_MEASURES @ PER_MILLION_MEASURES) [g, f] = ([g, f], Inl e)" by blast
        then show ?thesis
          using specs g f kind_grapher_export [OF g] kind_full_data_export [OF f]
          by (simp add: standard_export_def Let_def)
      qed
    qed
  qed
  then show "\<exists>e. snd (standard_export ref df output_path grapher_name) = Inl e"
    and "\<forall>f \<in> set (fst (standard_export ref df output_path grapher_name)). kind f \<noteq> Pivot"
    by blast+
qed


lemma export_df_run:
  "(case standard_export tiny_ref export_df ''public'' ''COVID-19'' of
      (files, res) \<Rightarrow> (map kind files, res)) =
   ([Grapher, Full_data] @ replicate 16 Pivot, Inr True)"
  by code_simp

lemma no_world_df_run:
  "(case standard_export tiny_ref no_world_df ''public'' ''COVID-19'' of
      (files, res) \<Rightarrow> (map kind files, res)) = ([Grapher, Full_data], Inl ValueError)"
  by code_simp

lemma tiny_specs:
  "aggregates_spec tiny_ref = Inr (projr (aggregates_spec tiny_ref))"
  by code_simp

lemma export_df_table_locations:
  "map location (df_table_of (projr (aggregates_spec tiny_ref)) export_df) =
   [''B'', ''World'', ''A'']"
  by code_simp

lemma export_df_columns:
  "remove1 ''World'' (sort (remdups [''B'', ''World'', ''A''])) = [''A'', ''B'']"
  by code_simp


text \<open>
  Claim C7. When \<open>standard_export\<close> succeeds, it has written one pivot file per base and
  per-million measure, and the columns of each are \<open>World\<close> followed by the other
  locations of the pivoted table in sorted order: a function of the set of locations, not
  of the order of the rows. When the table has no \<open>World\<close> location, the export raises and
  none of the files it has written is a pivot file.
\<close>

theorem standard_export_world_first:
  "(standard_export ref df output_path grapher_name = (files, Inr True) \<and>
      aggregates_spec ref = Inr specs \<longrightarrow>
      map file_name (filter (\<lambda>f. kind f = Pivot) files) =
        map (\<lambda>m. m @ ''.csv'') (BASE_MEASURES @ PER_MILLION_MEASURES) \<and>
      (\<forall>f \<in> set files. kind f = Pivot \<longrightarrow>
         header f = ''date'' # ''World'' #
           sorted_list_of_set (location ` set (df_table_of specs df) - {''World''}))) \<and>
   (''World'' \<notin> location ` set df \<longrightarrow>
      (\<exists>e. snd (standard_export ref df output_path grapher_name) = Inl e) \<and>
      (\<forall>f \<in> set (fst (standard_export ref df output_path grapher_name)). kind f \<noteq> Pivot))"
proof (intro conjI impI)
  assume a: "standard_export ref df output_path grapher_name = (files, Inr True) \<and>
      aggregates_spec ref = Inr specs"
  let ?ms = "BASE_MEASURES @ PER_MILLION_MEASURES"
  from standard_export_ok [OF conjunct1 [OF a] conjunct2 [OF a]]
  obtain g f ps where fs: "files = [g, f] @ ps" "kind g = Grapher" "kind f = Full_data"
    "length ps = length ?ms"
    "\<forall>i < length ps. pivot_export (df_table_of specs df) output_path (?ms ! i) = Inr (ps ! i)"
    by blast
  have each: "\<forall>i < length ps. kind (ps ! i) = Pivot \<and> file_name (ps ! i) = ?ms ! i @ ''.csv'' \<and>
      header (ps ! i) = ''date'' # ''World'' #
        sorted_list_of_set (location ` set (df_table_of specs df) - {''World''})"
    using fs(5) pivot_export_Inr by blast
  then have allp: "\<forall>p \<in> set ps. kind p = Pivot" by (metis in_set_conv_nth)
  then have "filter (\<lambda>f. kind f = Pivot) files = ps"
    using fs(1,2,3) by (simp add: filter_id_conv)
  moreover have "map file_name ps = map (\<lambda>m. m @ ''.csv'') ?ms"
    using each fs(4) by (intro map_file_name_eq) simp_all
  ultimately show "map file_name (filter (\<lambda>f. kind f = Pivot) files) =
      map (\<lambda>m. m @ ''.csv'') ?ms" by simp
  show "\<forall>f \<in> set files. kind f = Pivot \<longrightarrow>
      header f = ''date'' # ''World'' #
        sorted_list_of_set (location ` set (df_table_of specs df) - {''World''})"
  proof (intro ballI impI)
    fix x assume "x \<in> set files" "kind x = Pivot"
    then have "x \<in> set ps" using fs(1,2,3) by auto
    then show "header x = ''date'' # ''World'' #
        sorted_list_of_set (location ` set (df_table_of specs df) - {''World''})"
      using each by (metis in_set_conv_nth)
  qed
next
  assume "''World'' \<notin> location ` set df"
  then show "\<exists>e. snd (standard_export ref df output_path grapher_name) = Inl e"
    by (rule standard_export_no_world(1))
next
  assume "''World'' \<notin> location ` set df"
  then show "\<forall>f \<in> set (fst (standard_export ref df output_path grapher_name)). kind f \<noteq> Pivot"
    by (rule standard_export_no_world(2))
qed

text \<open>
  The theorem on a table with the locations B, World, A in this order (every pivot file
  has the columns World, A, B), and on the same table without World.
\<close>

theorem standard_export_world_first_witness:
  "snd (standard_export tiny_ref export_df ''public'' ''COVID-19'') = Inr True \<and>
   kind (fst (standard_export tiny_ref export_df ''public'' ''COVID-19'') ! 2) = Pivot \<and>
   header (fst (standard_export tiny_ref export_df ''public'' ''COVID-19'') ! 2) =
     [''date'', ''World'', ''A'', ''B''] \<and>
   map location no_world_df = [''B'', ''A''] \<and>
   snd (standard_export tiny_ref no_world_df ''public'' ''COVID-19'') = Inl ValueError \<and>
   list_all (\<lambda>f. kind f \<noteq> Pivot)
     (fst (standard_export tiny_ref no_world_df ''public'' ''COVID-19''))"
proof -
  let ?run = "standard_export tiny_ref export_df ''public'' ''COVID-19''"
  let ?specs = "projr (aggregates_spec tiny_ref)"
  have k: "map kind (fst ?run) = [Grapher, Full_data] @ replicate 16 Pivot"
    and r: "snd ?run = Inr True"
    using export_df_run by (simp_all add: case_prod_unfold)
  have run: "?run = (fst ?run, Inr True)" using r by (metis prod.collapse)
  have len: "length (fst ?run) = 18" using arg_cong [OF k, of length] by simp
  have k2: "kind (fst ?run ! 2) = Pivot"
    using arg_cong [OF k, of "\<lambda>ks. ks ! 2"] len by (simp add: nth_Cons')
  have mem: "fst ?run ! 2 \<in> set (fst ?run)" using len by simp
  have "location ` set (df_table_of ?specs export_df) = set [''B'', ''World'', ''A'']"
    using export_df_table_locations by (metis set_map)
  then have cols: "sorted_list_of_set (location ` set (df_table_of ?specs export_df) - {''World''}) =
      [''A'', ''B'']"
    using pivot_columns_set [of "''World''" "[''B'', ''World'', ''A'']"] export_df_columns by simp
  have nw: "''World'' \<notin> location ` set no_world_df"
    by (simp add: no_world_df_def full_row_def)
  note w1 = standard_export_world_first [of tiny_ref export_df "''public''" "''COVID-19''"
      "fst ?run" ?specs]
    and w2 = standard_export_world_first [of tiny_ref no_world_df "''public''" "''COVID-19''"]
  have h: "header (fst ?run ! 2) = [''date'', ''World'', ''A'', ''B'']"
    using w1 run tiny_specs mem k2 cols by auto
  have e: "snd (standard_export tiny_ref no_world_df ''public'' ''COVID-19'') = Inl ValueError"
    using no_world_df_run by (simp add: case_prod_unfold)
  have np: "list_all (\<lambda>f. kind f \<noteq> Pivot)
     (fst (standard_export tiny_ref no_world_df ''public'' ''COVID-19''))"
    using w2 nw by (simp add: list_all_iff)
  have l: "map location no_world_df = [''B'', ''A'']"
    by (simp add: no_world_df_def full_row_def)
  show ?thesis by (intro conjI r k2 h l e np)
qed

section \<open>Properties of aggregate synthesis\<close>

text \<open>
  Claim C10. For any aggregate spec (name, include, exclude) and any date on which at least
  one row qualifies under the filter, if every qualifying row of that date is null in a
  column, the aggregate has a row for that date and its value in that column is 0, not
  null.
\<close>

theorem sum_aggregate_nulls_as_zero:
  assumes col: "has_col df c"
    and some: "\<exists>r \<in> set (qualifying df include exclude). date r = d"
    and nulls: "\<forall>r \<in> set (qualifying df include exclude). date r = d \<longrightarrow> isnull (getc c r)"
  shows "(\<exists>a \<in> set (sum_aggregate df name include exclude). date a = d) \<and>
         (\<forall>a \<in> set (sum_aggregate df name include exclude).
            date a = d \<longrightarrow> location a = name \<and> vals a c = Some (Fin 0))"
proof -
  let ?q = "qualifying df include exclude"
  let ?g = "filter (\<lambda>r. date r = d) ?q"
  have ne: "?g \<noteq> []" using some by (simp add: filter_empty_conv)
  have hc: "has_col ?g c" using col by (simp add: has_col_qualifying has_col_filter)
  have "\<forall>r \<in> set ?g. isnull (getc c r)" using nulls by simp
  then have z: "sum_columns ?g c = Some (Fin 0)" using sum_columns_all_null [OF ne hc] by simp
  have "d \<in> set (sort (remdups (map date ?q)))" using some by auto
  then have "\<lparr>date = d, location = name, vals = sum_columns ?g\<rparr>
      \<in> set (sum_aggregate df name include exclude)"
    by (simp add: sum_aggregate_def Let_def image_iff)
  then have ex: "\<exists>a \<in> set (sum_aggregate df name include exclude). date a = d" by force
  have "\<forall>a \<in> set (sum_aggregate df name include exclude).
      date a = d \<longrightarrow> location a = name \<and> vals a c = Some (Fin 0)"
    using z by (auto simp: sum_aggregate_def Let_def)
  with ex show ?thesis by blast
qed

text \<open>
  The theorem for \<open>World excl. China\<close> on a date where the two remaining locations have
  no \<open>new_cases\<close> value.
\<close>

theorem sum_aggregate_nulls_as_zero_witness:
  "has_col all_null_df ''new_cases'' \<and>
   (\<exists>r \<in> set (qualifying all_null_df None (Some [''China''])). date r = 1) \<and>
   (\<exists>a \<in> set (sum_aggregate all_null_df ''World excl. China'' None (Some [''China''])).
      date a = 1 \<and> location a = ''World excl. China'' \<and> vals a ''new_cases'' = Some (Fin 0))"
proof -
  have h1: "has_col all_null_df ''new_cases''"
    by (simp add: has_col_def all_null_df_def)
  have h2: "\<exists>r \<in> set (qualifying all_null_df None (Some [''China''])). date r = 1"
    by (simp add: qualifying_def all_null_df_def isin_def)
  have h3: "\<forall>r \<in> set (qualifying all_null_df None (Some [''China''])).
      date r = 1 \<longrightarrow> isnull (getc ''new_cases'' r)"
    by (simp add: qualifying_def all_null_df_def isin_def)
  from sum_aggregate_nulls_as_zero [OF h1 h2 h3, of "''World excl. China''"] h1 h2
  show ?thesis by blast
qed

end
